theory Spec2Isabelle
  imports Complex_Main "HOL-Library.Monad_Syntax"
begin

section \<open>Floating-point values of the notebooks\<close>

text \<open>
  The notebooks compute on pandas columns of 64-bit floats. A value is modelled as a
  finite real number or one of the three non-finite values a division by zero produces
  there: pandas and numpy divide without raising, so \<open>x / 0\<close> is \<open>nan\<close> for \<open>x = 0\<close> and
  \<open>inf\<close> or \<open>-inf\<close> otherwise. The operations \<open>fmul\<close>, \<open>fdiv\<close> and \<open>fadd\<close> below, which
  the cells of \<open>dom-sizing\<close> are written with, are exact on finite values (rounding,
  overflow of finite values and the sign of zero are not modelled there). The endurance
  formula is modelled with the rounding of IEEE 754 double precision, in its own section.
\<close>

datatype fval = Fin real | PInf | NInf | NaN

fun fmul :: "fval \<Rightarrow> fval \<Rightarrow> fval" where
  "fmul NaN y = NaN"
| "fmul x NaN = NaN"
| "fmul (Fin a) (Fin b) = Fin (a * b)"
| "fmul (Fin a) PInf = (if a = 0 then NaN else if 0 < a then PInf else NInf)"
| "fmul (Fin a) NInf = (if a = 0 then NaN else if 0 < a then NInf else PInf)"
| "fmul PInf (Fin b) = (if b = 0 then NaN else if 0 < b then PInf else NInf)"
| "fmul NInf (Fin b) = (if b = 0 then NaN else if 0 < b then NInf else PInf)"
| "fmul PInf PInf = PInf"
| "fmul PInf NInf = NInf"
| "fmul NInf PInf = NInf"
| "fmul NInf NInf = PInf"

fun fdiv :: "fval \<Rightarrow> fval \<Rightarrow> fval" where
  "fdiv NaN y = NaN"
| "fdiv x NaN = NaN"
| "fdiv (Fin a) (Fin b) =
     (if b = 0 then (if a = 0 then NaN else if 0 < a then PInf else NInf) else Fin (a / b))"
| "fdiv (Fin a) PInf = Fin 0"
| "fdiv (Fin a) NInf = Fin 0"
| "fdiv PInf (Fin b) = (if 0 \<le> b then PInf else NInf)"
| "fdiv NInf (Fin b) = (if 0 \<le> b then NInf else PInf)"
| "fdiv PInf PInf = NaN"
| "fdiv PInf NInf = NaN"
| "fdiv NInf PInf = NaN"
| "fdiv NInf NInf = NaN"

fun fadd :: "fval \<Rightarrow> fval \<Rightarrow> fval" where
  "fadd NaN y = NaN"
| "fadd x NaN = NaN"
| "fadd (Fin a) (Fin b) = Fin (a + b)"
| "fadd (Fin a) PInf = PInf"
| "fadd (Fin a) NInf = NInf"
| "fadd PInf (Fin b) = PInf"
| "fadd NInf (Fin b) = NInf"
| "fadd PInf PInf = PInf"
| "fadd PInf NInf = NaN"
| "fadd NInf PInf = NaN"
| "fadd NInf NInf = NInf"

text \<open>Comparison \<open>x <= y\<close> and \<open>x > y\<close> of floats: false whenever an operand is \<open>nan\<close>.\<close>

fun fle :: "fval \<Rightarrow> fval \<Rightarrow> bool" where
  "fle NaN y = False"
| "fle x NaN = False"
| "fle (Fin a) (Fin b) = (a \<le> b)"
| "fle NInf y = True"
| "fle x PInf = True"
| "fle PInf y = False"
| "fle x NInf = False"

definition fgt :: "fval \<Rightarrow> fval \<Rightarrow> bool" where
  "fgt x y = (x \<noteq> NaN \<and> y \<noteq> NaN \<and> \<not> fle x y)"

text \<open>\<open>Series.fillna(0.0)\<close> on one element: only \<open>nan\<close> is replaced.\<close>

fun fillna :: "fval \<Rightarrow> fval" where
  "fillna NaN = Fin 0"
| "fillna x = x"

text \<open>\<open>Series.sum()\<close>: pandas skips \<open>nan\<close> entries (\<open>skipna=True\<close>); the empty sum is 0.\<close>

fun fsum :: "fval list \<Rightarrow> fval" where
  "fsum [] = Fin 0"
| "fsum (x # xs) = (if x = NaN then fsum xs else fadd x (fsum xs))"

text \<open>
  \<open>DataFrame.max(axis=1)\<close> on a row of two columns: the larger entry, \<open>nan\<close> entries
  skipped, \<open>nan\<close> when both are.
\<close>

fun fmax2 :: "fval \<Rightarrow> fval \<Rightarrow> fval" where
  "fmax2 NaN y = y"
| "fmax2 x NaN = x"
| "fmax2 x y = (if fle x y then y else x)"

text \<open>
  Python's builtin \<open>max(1, x)\<close> keeps its first argument unless a later one is strictly
  greater.
\<close>

definition py_max1 :: "fval \<Rightarrow> fval" where
  "py_max1 x = (if fgt x (Fin 1) then x else Fin 1)"

definition fin_int :: "int \<Rightarrow> fval" where
  "fin_int i = Fin (real_of_int i)"

section \<open>Columns and data frames\<close>

text \<open>
  A pandas \<open>Series\<close> is the list of its values in index order; a \<open>DataFrame\<close> is the map
  from column names to columns, and reading a column that is not there raises
  \<open>KeyError\<close>. A Python exception is the result \<open>None\<close>. Every frame of the notebook is
  built on \<open>reference_df.index\<close>, so arithmetic between two columns is element by
  element; the index itself (the \<open>bin_size\<close> column of the histogram) is kept beside the
  frame as a list of integers.
\<close>

type_synonym series = "fval list"
type_synonym dataframe = "string \<rightharpoonup> series"

definition series_mul :: "series \<Rightarrow> series \<Rightarrow> series" where
  "series_mul a b = map2 fmul a b"

definition series_div :: "series \<Rightarrow> series \<Rightarrow> series" where
  "series_div a b = map2 fdiv a b"

definition series_add :: "series \<Rightarrow> series \<Rightarrow> series" where
  "series_add a b = map2 fadd a b"

definition series_max :: "series \<Rightarrow> series \<Rightarrow> series" where
  "series_max a b = map2 fmax2 a b"

definition scalar_mul :: "series \<Rightarrow> fval \<Rightarrow> series" where
  "scalar_mul a s = map (\<lambda>x. fmul x s) a"

definition scalar_div :: "series \<Rightarrow> fval \<Rightarrow> series" where
  "scalar_div a s = map (\<lambda>x. fdiv x s) a"

definition series_fillna :: "series \<Rightarrow> series" where
  "series_fillna a = map fillna a"

text \<open>A \<open>for\<close> loop whose body updates one variable and may raise.\<close>

primrec for_each :: "'a list \<Rightarrow> ('a \<Rightarrow> 's \<Rightarrow> 's option) \<Rightarrow> 's \<Rightarrow> 's option" where
  "for_each [] body s = Some s"
| "for_each (x # xs) body s = (case body x s of None \<Rightarrow> None | Some s' \<Rightarrow> for_each xs body s')"

section \<open>dom-sizing: constants and helpers\<close>

definition LUSTRE_BYTES_PER_INODE :: fval where
  "LUSTRE_BYTES_PER_INODE = fdiv (Fin 4) (Fin (1 / 2 ^ 10))"

definition INODE_TYPES :: "string list" where
  "INODE_TYPES = [''files'', ''dirs'', ''symlinks'', ''blks'', ''chrs'', ''fifos'', ''socks'']"

definition NON_FILE_INODE_TYPES :: "string list" where
  "NON_FILE_INODE_TYPES = tl INODE_TYPES"

definition REDUCTIONS :: "string list" where
  "REDUCTIONS = [''min'', ''max'', ''ave'']"

definition invert_redux :: "string \<Rightarrow> string" where
  "invert_redux redux =
     (if redux = ''min'' then ''max''
      else if redux = ''max'' then ''min''
      else redux)"

text \<open>
  \<open>invalid_minmax_df\<close>, the notebook's check that ``the min/max columns of a distribution
  dataframe are not larger than the other'': the number of rows in which \<open>min <= max\<close>
  does not hold. Its docstring says that it ``should always return 0''.
\<close>

definition invalid_minmax_df :: "dataframe \<Rightarrow> string \<Rightarrow> nat option" where
  "invalid_minmax_df df key = do {
     lower \<leftarrow> df (key @ ''_min'');
     upper \<leftarrow> df (key @ ''_max'');
     Some (length (filter (\<lambda>(a, b). \<not> fle a b) (zip lower upper)))
   }"

section \<open>dom-sizing: the cells of the notebook\<close>

text \<open>
  The extent columns of \<open>reference_df\<close>. The lower extents are the array
  \<open>concatenate(([0, 2], index[1:-1] + 1))\<close>. Assigning an array to a column of a frame
  that has rows raises \<open>ValueError\<close> when the lengths differ, which is the case of a table
  of one bin. A frame without rows takes the positions \<open>0, 1, ...\<close> of the assigned array
  as its new index, and the columns it had are filled with \<open>nan\<close>: a table without rows
  comes out of this cell with the two rows of the array \<open>[0, 2]\<close>. The upper extents are
  the index as it is after that assignment. The bin boundaries are taken as unbounded
  integers (the wrap-around of numpy's 64-bit integers is not modelled).
\<close>

definition bin_extent_min :: "int list \<Rightarrow> int list" where
  "bin_extent_min idx = [0, 2] @ map (\<lambda>x. x + 1) (butlast (tl idx))"

definition reference_df_extents :: "int list \<Rightarrow> dataframe \<Rightarrow> dataframe option" where
  "reference_df_extents idx df0 = do {
     let lower = bin_extent_min idx;
     (index, df) \<leftarrow>
       (if idx = [] then
          Some (map int [0..<length lower],
                \<lambda>column. map_option (\<lambda>values. replicate (length lower) NaN) (df0 column))
        else if length lower \<noteq> length idx then None
        else Some (idx, df0));
     let df1 = df(''bin_extent_min'' \<mapsto> map fin_int lower);
     let df2 = df1(''bin_extent_max'' \<mapsto> map fin_int index);
     emin \<leftarrow> df2 ''bin_extent_min'';
     emax \<leftarrow> df2 ''bin_extent_max'';
     Some (df2(''bin_extent_ave'' \<mapsto> scalar_div (series_add emin emax) (Fin 2)))
   }"

text \<open>\<open>mass_dist\<close>: the data mass of each bin, for each reduction.\<close>

definition mass_dist_cell :: "dataframe \<Rightarrow> dataframe option" where
  "mass_dist_cell reference_df =
     for_each REDUCTIONS (\<lambda>redux mass_dist. do {
        num_files \<leftarrow> reference_df ''num_files'';
        extent \<leftarrow> reference_df (''bin_extent_'' @ redux);
        Some (mass_dist(''dmass_'' @ redux \<mapsto> series_fillna (series_mul num_files extent)))
      }) Map.empty"

text \<open>\<open>mass_dist_sums\<close>: the dictionary of the column sums of \<open>mass_dist\<close>.\<close>

definition mass_dist_sums_cell :: "dataframe \<Rightarrow> (string \<rightharpoonup> fval) option" where
  "mass_dist_sums_cell mass_dist =
     for_each REDUCTIONS (\<lambda>redux sum_dict. do {
        m \<leftarrow> mass_dist (''dmass_'' @ redux);
        Some (sum_dict(''dmass_'' @ redux \<mapsto> fsum m))
      }) Map.empty"

text \<open>
  \<open>prob_dist\<close>: each mass column divided by the sum of the inverted reduction. The columns
  of a histogram that has rows are columns of floats, which numpy divides without raising.
  \<open>read_csv\<close> gives the columns of a table without rows the dtype \<open>object\<close>, and so have
  the columns computed from them: on these pandas applies Python's own operators element by
  element, and Python's division raises \<open>ZeroDivisionError\<close> on a zero divisor. The flag
  \<open>object_dtype\<close> says which of the two the mass columns are.
\<close>

definition column_div_scalar :: "bool \<Rightarrow> series \<Rightarrow> fval \<Rightarrow> series option" where
  "column_div_scalar object_dtype a s =
     (if object_dtype \<and> a \<noteq> [] \<and> s = Fin 0 then None else Some (scalar_div a s))"

definition prob_dist_cell :: "bool \<Rightarrow> dataframe \<Rightarrow> (string \<rightharpoonup> fval) \<Rightarrow> dataframe option" where
  "prob_dist_cell object_dtype mass_dist mass_dist_sums =
     for_each REDUCTIONS (\<lambda>redux prob_dist. do {
        m \<leftarrow> mass_dist (''dmass_'' @ redux);
        s \<leftarrow> mass_dist_sums (''dmass_'' @ invert_redux redux);
        p \<leftarrow> column_div_scalar object_dtype m s;
        Some (prob_dist(''dmass_'' @ redux \<mapsto> p))
      }) Map.empty"

text \<open>\<open>new_mass_dist\<close>: the probabilities times the target capacity.\<close>

definition new_mass_dist_cell :: "dataframe \<Rightarrow> fval \<Rightarrow> dataframe option" where
  "new_mass_dist_cell prob_dist TARGET_TOTAL_OST_CAPACITY =
     for_each [''dmass''] (\<lambda>mass_type new_mass_dist0.
       for_each REDUCTIONS (\<lambda>redux new_mass_dist. do {
          p \<leftarrow> prob_dist (mass_type @ ''_'' @ redux);
          Some (new_mass_dist(mass_type @ ''_'' @ redux \<mapsto>
                  scalar_mul p TARGET_TOTAL_OST_CAPACITY))
        }) new_mass_dist0) Map.empty"

text \<open>\<open>newfs_df\<close>: the number of files of the new file system, then of the other types.\<close>

definition newfs_files_cell :: "dataframe \<Rightarrow> dataframe \<Rightarrow> dataframe option" where
  "newfs_files_cell reference_df new_mass_dist = do {
     dmin \<leftarrow> new_mass_dist ''dmass_min'';
     emax \<leftarrow> reference_df ''bin_extent_max'';
     let newfs1 = Map.empty(''num_files_min'' \<mapsto> series_fillna (series_div dmin emax));
     dmax \<leftarrow> new_mass_dist ''dmass_max'';
     emin \<leftarrow> reference_df ''bin_extent_min'';
     let newfs2 = newfs1(''num_files_max'' \<mapsto>
                    series_fillna (series_div dmax (map py_max1 emin)));
     dave \<leftarrow> new_mass_dist ''dmass_ave'';
     eave \<leftarrow> reference_df ''bin_extent_ave'';
     Some (newfs2(''num_files_ave'' \<mapsto> series_fillna (series_div dave eave)))
   }"

definition newfs_types_cell :: "dataframe \<Rightarrow> dataframe \<Rightarrow> dataframe option" where
  "newfs_types_cell reference_df newfs_df0 =
     for_each NON_FILE_INODE_TYPES (\<lambda>itype newfs_df1.
       for_each REDUCTIONS (\<lambda>redux newfs_df. do {
          nf \<leftarrow> newfs_df (''num_files_'' @ redux);
          rt \<leftarrow> reference_df (''num_'' @ itype);
          rf \<leftarrow> reference_df ''num_files'';
          Some (newfs_df(''num_'' @ itype @ ''_'' @ redux \<mapsto>
                  series_fillna (series_div (series_mul nf rt) rf)))
        }) newfs_df1) newfs_df0"

text \<open>
  \<open>calculate_inode_mass\<close>: every file inode weighs \<open>LUSTRE_BYTES_PER_INODE\<close>; for the
  other types the column \<open>count * extent\<close> and the column \<open>count * LUSTRE_BYTES_PER_INODE\<close>
  are put side by side and the row maximum is added to \<open>ret\<close>, once for each type
  (\<open>calculate_inode_mass_body\<close> is the body of that loop). \<open>if minmax:\<close> is Python's
  truth test, false for \<open>None\<close> and for the empty string.
\<close>

definition minmax_suffix :: "string option \<Rightarrow> string" where
  "minmax_suffix minmax = (case minmax of None \<Rightarrow> [] | Some m \<Rightarrow> if m = [] then [] else ''_'' @ m)"

definition calculate_inode_mass_body ::
    "dataframe \<Rightarrow> dataframe \<Rightarrow> string \<Rightarrow> string \<Rightarrow> string \<Rightarrow> series \<Rightarrow> series option" where
  "calculate_inode_mass_body reference_df input_df redux suffix itype ret = do {
     n1 \<leftarrow> input_df (''num_'' @ itype @ suffix);
     extent \<leftarrow> reference_df (''bin_extent_'' @ redux);
     let tmp_df = series_mul n1 extent;
     n2 \<leftarrow> input_df (''num_'' @ itype @ suffix);
     let tmp_underscore = scalar_mul n2 LUSTRE_BYTES_PER_INODE;
     Some (series_add ret (series_max tmp_df tmp_underscore))
   }"

definition calculate_inode_mass ::
    "dataframe \<Rightarrow> dataframe \<Rightarrow> string \<Rightarrow> string option \<Rightarrow> fval option" where
  "calculate_inode_mass reference_df input_df redux minmax = do {
     let suffix = minmax_suffix minmax;
     files \<leftarrow> input_df (''num_files'' @ suffix);
     ret \<leftarrow> for_each NON_FILE_INODE_TYPES
              (calculate_inode_mass_body reference_df input_df redux suffix)
              (scalar_mul files LUSTRE_BYTES_PER_INODE);
     Some (fsum (series_fillna ret))
   }"

definition inode_mass_cell :: "dataframe \<Rightarrow> dataframe \<Rightarrow> (string \<rightharpoonup> fval) option" where
  "inode_mass_cell reference_df newfs_df =
     for_each REDUCTIONS (\<lambda>redux inode_mass. do {
        v \<leftarrow> calculate_inode_mass reference_df newfs_df redux (Some redux);
        Some (inode_mass(redux \<mapsto> v))
      }) Map.empty"

text \<open>
  The variables of the notebook once its cells have run, from top to bottom, on the
  histogram with the index \<open>idx\<close> and the columns \<open>df0\<close> that \<open>read_csv\<close> returns. The
  columns have the dtype \<open>object\<close> exactly when the table has no rows; the run then stops
  in the \<open>prob_dist\<close> cell at the latest, so that the cells after it are written for
  columns of floats.
\<close>

record notebook =
  reference_df :: dataframe
  mass_dist :: dataframe
  mass_dist_sums :: "string \<rightharpoonup> fval"
  prob_dist :: dataframe
  new_mass_dist :: dataframe
  newfs_df :: dataframe
  inode_mass :: "string \<rightharpoonup> fval"

definition run_notebook :: "int list \<Rightarrow> dataframe \<Rightarrow> fval \<Rightarrow> notebook option" where
  "run_notebook idx df0 TARGET_TOTAL_OST_CAPACITY = do {
     ref \<leftarrow> reference_df_extents idx df0;
     md \<leftarrow> mass_dist_cell ref;
     sm \<leftarrow> mass_dist_sums_cell md;
     pd \<leftarrow> prob_dist_cell (idx = []) md sm;
     nmd \<leftarrow> new_mass_dist_cell pd TARGET_TOTAL_OST_CAPACITY;
     nfs0 \<leftarrow> newfs_files_cell ref nmd;
     nfs \<leftarrow> newfs_types_cell ref nfs0;
     im \<leftarrow> inode_mass_cell ref nfs;
     Some \<lparr>reference_df = ref, mass_dist = md, mass_dist_sums = sm, prob_dist = pd,
            new_mass_dist = nmd, newfs_df = nfs, inode_mass = im\<rparr>
   }"

section \<open>ssd-endurance-requirements: the endurance formula\<close>

text \<open>
  The formula is evaluated in IEEE 754 double precision: every product and quotient is
  the exact result rounded to the nearest double, a tie going to the even significand.
  \<open>exponent64 x\<close> is the exponent of the binade of \<open>x\<close>, not below that of the smallest
  normal number, so that \<open>pow2 (exponent64 x - 52)\<close> is the distance between neighbouring
  doubles around \<open>x\<close>, subnormal ones included. A result of magnitude \<open>2 ^ 1024\<close> or more
  overflows to \<open>inf\<close> or \<open>-inf\<close>. The sign of zero is not modelled.
\<close>

definition pow2 :: "int \<Rightarrow> real" where
  "pow2 e = (if 0 \<le> e then 2 ^ nat e else 1 / 2 ^ nat (- e))"

primrec exponent_from :: "nat \<Rightarrow> int \<Rightarrow> real \<Rightarrow> int" where
  "exponent_from 0 e a = e"
| "exponent_from (Suc n) e a = (if a < pow2 (e + 1) then e else exponent_from n (e + 1) a)"

definition exponent64 :: "real \<Rightarrow> int" where
  "exponent64 x = exponent_from 2045 (- 1022) \<bar>x\<bar>"

definition round_even :: "real \<Rightarrow> int" where
  "round_even q =
     (let f = \<lfloor>q\<rfloor>; d = q - of_int f
      in if d < 1 / 2 then f else if 1 / 2 < d then f + 1 else if even f then f else f + 1)"

definition round64 :: "real \<Rightarrow> fval" where
  "round64 x =
     (let ulp = pow2 (exponent64 x - 52);
          r = of_int (round_even (x / ulp)) * ulp
      in if pow2 1024 \<le> \<bar>r\<bar> then (if 0 < r then PInf else NInf) else Fin r)"

text \<open>
  The product and the quotient of two doubles. With an operand that is not finite, and for
  the division by zero, the result is that of \<open>fmul\<close> and \<open>fdiv\<close>.
\<close>

definition dmul :: "fval \<Rightarrow> fval \<Rightarrow> fval" where
  "dmul x y = (case (x, y) of (Fin a, Fin b) \<Rightarrow> round64 (a * b) | _ \<Rightarrow> fmul x y)"

definition ddiv :: "fval \<Rightarrow> fval \<Rightarrow> fval" where
  "ddiv x y =
     (case (x, y) of
        (Fin a, Fin b) \<Rightarrow> if b = 0 then fdiv x y else round64 (a / b)
      | _ \<Rightarrow> fdiv x y)"

text \<open>
  \<open>PARAM_BIGC_NEW_LOW\<close> and \<open>PARAM_BIGC_NEW_HIGH\<close>: when one of the parameters of the new
  system is \<open>None\<close>, the capacity term is derived from the required capacity, else it is
  \<open>chi * R * N * c\<close>. A decimal literal of the source is the double nearest to it.
\<close>

definition PARAM_BIGC_NEW ::
    "fval option \<Rightarrow> fval option \<Rightarrow> fval option \<Rightarrow> fval option \<Rightarrow> fval option
      \<Rightarrow> fval \<Rightarrow> fval \<Rightarrow> fval \<times> fval" where
  "PARAM_BIGC_NEW PARAM_CHI PARAM_N_NEW PARAM_C_NEW PARAM_R_NEW_LOW PARAM_R_NEW_HIGH
       PARAM_SSI_LOW PARAM_SSI_HIGH =
     (case (PARAM_CHI, PARAM_N_NEW, PARAM_C_NEW, PARAM_R_NEW_LOW, PARAM_R_NEW_HIGH) of
        (Some chi, Some n_new, Some c_new, Some r_low, Some r_high) \<Rightarrow>
          (dmul (dmul (dmul chi r_low) n_new) c_new,
           dmul (dmul (dmul chi r_high) n_new) c_new)
      | _ \<Rightarrow>
          (dmul (ddiv (dmul PARAM_SSI_LOW (Fin 28)) (Fin 0.5)) (round64 133116697694451.58),
           dmul (ddiv (dmul PARAM_SSI_HIGH (Fin 28)) (Fin 0.5)) (round64 133116697694451.58)))"

text \<open>
  \<open>DWPD_NEW_LOW\<close> and \<open>DWPD_NEW_HIGH\<close> are the same expression on the low and the high
  parameters, evaluated from left to right. \<open>PARAM_FSWPD\<close> is a numpy float (a column
  mean), and so is every product after it: the division does not raise on zero.
\<close>

definition DWPD_NEW :: "fval \<Rightarrow> fval \<Rightarrow> fval \<Rightarrow> fval \<Rightarrow> fval \<Rightarrow> fval \<Rightarrow> fval \<Rightarrow> fval" where
  "DWPD_NEW PARAM_SSI PARAM_FSWPD PARAM_WAF PARAM_R_REF PARAM_N_REF PARAM_C_REF PARAM_BIGC =
     ddiv (dmul (dmul (dmul (dmul (dmul PARAM_SSI PARAM_FSWPD) PARAM_WAF) PARAM_R_REF)
                   PARAM_N_REF) PARAM_C_REF) PARAM_BIGC"

text \<open>
  A number is well inside the range of the normal doubles when its magnitude lies between
  \<open>2 ^ -1021\<close> and \<open>2 ^ 1022\<close>: a computation whose exact intermediate results are all in
  that range neither overflows nor loses precision to underflow.
\<close>

definition in_normal_range :: "real \<Rightarrow> bool" where
  "in_normal_range t = (pow2 (- 1021) \<le> \<bar>t\<bar> \<and> \<bar>t\<bar> \<le> pow2 1022)"

section \<open>Reference histograms\<close>

text \<open>
  A histogram the notebook runs to its end on has a count column \<open>num_<type>\<close> for each
  inode type, as long as its index, and at least two bins. A count is a non-negative
  number, or \<open>nan\<close> where the table has no value.
\<close>

definition reference_ok :: "int list \<Rightarrow> dataframe \<Rightarrow> bool" where
  "reference_ok idx df0 =
     (2 \<le> length idx \<and>
      (\<forall>itype \<in> set INODE_TYPES.
         case df0 (''num_'' @ itype) of None \<Rightarrow> False | Some col \<Rightarrow> length col = length idx))"

definition count_ok :: "fval \<Rightarrow> bool" where
  "count_ok x = (case x of Fin c \<Rightarrow> 0 \<le> c | NaN \<Rightarrow> True | _ \<Rightarrow> False)"

definition count_val :: "fval \<Rightarrow> real" where
  "count_val x = (case x of Fin c \<Rightarrow> c | _ \<Rightarrow> 0)"

text \<open>A histogram with the given file and directory counts and no other inodes.\<close>

definition example_df :: "series \<Rightarrow> series \<Rightarrow> dataframe" where
  "example_df files dirs = Map.empty(
     ''num_files'' \<mapsto> files, ''num_dirs'' \<mapsto> dirs,
     ''num_symlinks'' \<mapsto> replicate (length files) (Fin 0),
     ''num_blks'' \<mapsto> replicate (length files) (Fin 0),
     ''num_chrs'' \<mapsto> replicate (length files) (Fin 0),
     ''num_fifos'' \<mapsto> replicate (length files) (Fin 0),
     ''num_socks'' \<mapsto> replicate (length files) (Fin 0))"

text \<open>A column of one of the frames of a finished run, and an entry of one of its dictionaries.\<close>

definition notebook_column ::
    "notebook option \<Rightarrow> (notebook \<Rightarrow> dataframe) \<Rightarrow> string \<Rightarrow> series option" where
  "notebook_column r frame k = (case r of None \<Rightarrow> None | Some nb \<Rightarrow> frame nb k)"

definition notebook_entry ::
    "notebook option \<Rightarrow> (notebook \<Rightarrow> (string \<rightharpoonup> fval)) \<Rightarrow> string \<Rightarrow> fval option" where
  "notebook_entry r dict k = (case r of None \<Rightarrow> None | Some nb \<Rightarrow> dict nb k)"

section \<open>Evaluating the cells\<close>

lemma LUSTRE_BYTES_PER_INODE_eq: "LUSTRE_BYTES_PER_INODE = Fin 4096"
  by (simp add: LUSTRE_BYTES_PER_INODE_def)

subsection \<open>The loop of \<open>calculate_inode_mass\<close>\<close>

text \<open>
  After the loop over the types, each entry of \<open>ret\<close> is its starting value plus the row
  maxima of the types, in the order of the loop.
\<close>

lemma inode_mass_loop:
  assumes "\<forall>t\<in>set ts. input_df (''num_'' @ t @ suffix) = Some (cnt t) \<and> length (cnt t) = n"
    and "ref (''bin_extent_'' @ redux) = Some e" and "length e = n" and "length ret0 = n"
  shows "\<exists>ret. for_each ts (calculate_inode_mass_body ref input_df redux suffix) ret0 = Some ret
           \<and> length ret = n
           \<and> (\<forall>i<n. ret ! i = foldl fadd (ret0 ! i)
                 (map (\<lambda>t. fmax2 (fmul (cnt t ! i) (e ! i)) (fmul (cnt t ! i) LUSTRE_BYTES_PER_INODE)) ts))"
  using assms
proof (induction ts arbitrary: ret0)
  case Nil
  then show ?case by simp
next
  case (Cons t ts)
  let ?r1 = "series_add ret0 (series_max (series_mul (cnt t) e) (scalar_mul (cnt t) LUSTRE_BYTES_PER_INODE))"
  have step: "calculate_inode_mass_body ref input_df redux suffix t ret0 = Some ?r1"
    using Cons.prems by (simp add: calculate_inode_mass_body_def)
  have len: "length ?r1 = n"
    using Cons.prems by (simp add: series_add_def series_max_def series_mul_def scalar_mul_def)
  have nth1: "\<forall>i<n. ?r1 ! i = fadd (ret0 ! i) (fmax2 (fmul (cnt t ! i) (e ! i)) (fmul (cnt t ! i) LUSTRE_BYTES_PER_INODE))"
    using Cons.prems by (simp add: series_add_def series_max_def series_mul_def scalar_mul_def)
  from Cons.IH[of ?r1] Cons.prems len
  obtain ret where r: "for_each ts (calculate_inode_mass_body ref input_df redux suffix) ?r1 = Some ret"
      "length ret = n"
      "\<forall>i<n. ret ! i = foldl fadd (?r1 ! i)
                 (map (\<lambda>t. fmax2 (fmul (cnt t ! i) (e ! i)) (fmul (cnt t ! i) LUSTRE_BYTES_PER_INODE)) ts)"
    by auto
  show ?case using step r nth1 by simp
qed

lemma calculate_inode_mass_eq:
  assumes cols: "\<forall>t\<in>set INODE_TYPES.
             input_df (''num_'' @ t @ minmax_suffix minmax) = Some (cnt t) \<and> length (cnt t) = n"
    and ext: "ref (''bin_extent_'' @ redux) = Some e" "length e = n"
  shows "calculate_inode_mass ref input_df redux minmax =
     Some (fsum (map (\<lambda>i. fillna (foldl fadd (fmul (cnt ''files'' ! i) LUSTRE_BYTES_PER_INODE)
              (map (\<lambda>t. fmax2 (fmul (cnt t ! i) (e ! i)) (fmul (cnt t ! i) LUSTRE_BYTES_PER_INODE))
                   NON_FILE_INODE_TYPES))) [0..<n]))"
proof -
  have files: "input_df (''num_files'' @ minmax_suffix minmax) = Some (cnt ''files'')"
      "length (cnt ''files'') = n"
    using cols by (simp_all add: INODE_TYPES_def)
  have nonfile: "\<forall>t\<in>set NON_FILE_INODE_TYPES.
       input_df (''num_'' @ t @ minmax_suffix minmax) = Some (cnt t) \<and> length (cnt t) = n"
    using cols by (simp add: INODE_TYPES_def NON_FILE_INODE_TYPES_def)
  let ?ret0 = "scalar_mul (cnt ''files'') LUSTRE_BYTES_PER_INODE"
  have len0: "length ?ret0 = n" using files by (simp add: scalar_mul_def)
  from inode_mass_loop[of NON_FILE_INODE_TYPES input_df "minmax_suffix minmax" cnt n ref redux e ?ret0]
    nonfile ext len0
  obtain ret where r: "for_each NON_FILE_INODE_TYPES
        (calculate_inode_mass_body ref input_df redux (minmax_suffix minmax)) ?ret0 = Some ret"
      "length ret = n"
      "\<forall>i<n. ret ! i = foldl fadd (?ret0 ! i)
         (map (\<lambda>t. fmax2 (fmul (cnt t ! i) (e ! i)) (fmul (cnt t ! i) LUSTRE_BYTES_PER_INODE))
              NON_FILE_INODE_TYPES)"
    by blast
  have "series_fillna ret = map (\<lambda>i. fillna (foldl fadd (fmul (cnt ''files'' ! i) LUSTRE_BYTES_PER_INODE)
              (map (\<lambda>t. fmax2 (fmul (cnt t ! i) (e ! i)) (fmul (cnt t ! i) LUSTRE_BYTES_PER_INODE))
                   NON_FILE_INODE_TYPES))) [0..<n]"
    using r(2,3) files(2) by (auto simp add: list_eq_iff_nth_eq series_fillna_def scalar_mul_def)
  then show ?thesis using files(1) r(1) by (simp add: calculate_inode_mass_def)
qed

subsection \<open>The cells on a histogram that has its columns\<close>

lemma length_bin_extent_min: "2 \<le> length idx \<Longrightarrow> length (bin_extent_min idx) = length idx"
  by (simp add: bin_extent_min_def)

lemma length_bin_extent_min_iff: "(length (bin_extent_min idx) = length idx) = (2 \<le> length idx)"
  by (auto simp add: bin_extent_min_def)

lemma reference_df_extents_some:
  assumes "2 \<le> length idx"
  shows "reference_df_extents idx df0 =
     Some (df0(''bin_extent_min'' \<mapsto> map fin_int (bin_extent_min idx),
               ''bin_extent_max'' \<mapsto> map fin_int idx,
               ''bin_extent_ave'' \<mapsto> scalar_div (series_add (map fin_int (bin_extent_min idx)) (map fin_int idx)) (Fin 2)))"
proof -
  from assms have "idx \<noteq> []" by auto
  then show ?thesis
    using assms by (simp add: reference_df_extents_def length_bin_extent_min Let_def)
qed

lemma mass_dist_cell_some:
  assumes "ref ''num_files'' = Some nf" "ref ''bin_extent_min'' = Some e1"
    "ref ''bin_extent_max'' = Some e2" "ref ''bin_extent_ave'' = Some e3"
  shows "mass_dist_cell ref = Some (Map.empty(
      ''dmass_min'' \<mapsto> series_fillna (series_mul nf e1),
      ''dmass_max'' \<mapsto> series_fillna (series_mul nf e2),
      ''dmass_ave'' \<mapsto> series_fillna (series_mul nf e3)))"
  using assms by (simp add: mass_dist_cell_def REDUCTIONS_def)

lemma mass_dist_sums_cell_some:
  assumes "md ''dmass_min'' = Some m1" "md ''dmass_max'' = Some m2" "md ''dmass_ave'' = Some m3"
  shows "mass_dist_sums_cell md = Some (Map.empty(
      ''dmass_min'' \<mapsto> fsum m1, ''dmass_max'' \<mapsto> fsum m2, ''dmass_ave'' \<mapsto> fsum m3))"
  using assms by (simp add: mass_dist_sums_cell_def REDUCTIONS_def)

lemma prob_dist_cell_some:
  assumes "md ''dmass_min'' = Some m1" "md ''dmass_max'' = Some m2" "md ''dmass_ave'' = Some m3"
    "sm ''dmass_min'' = Some s1" "sm ''dmass_max'' = Some s2" "sm ''dmass_ave'' = Some s3"
  shows "prob_dist_cell False md sm = Some (Map.empty(
      ''dmass_min'' \<mapsto> scalar_div m1 s2, ''dmass_max'' \<mapsto> scalar_div m2 s1,
      ''dmass_ave'' \<mapsto> scalar_div m3 s3))"
  using assms
  by (simp add: prob_dist_cell_def column_div_scalar_def REDUCTIONS_def invert_redux_def)

lemma new_mass_dist_cell_some:
  assumes "pd ''dmass_min'' = Some p1" "pd ''dmass_max'' = Some p2" "pd ''dmass_ave'' = Some p3"
  shows "new_mass_dist_cell pd T = Some (Map.empty(
      ''dmass_min'' \<mapsto> scalar_mul p1 T, ''dmass_max'' \<mapsto> scalar_mul p2 T,
      ''dmass_ave'' \<mapsto> scalar_mul p3 T))"
  using assms by (simp add: new_mass_dist_cell_def REDUCTIONS_def)

lemma newfs_files_cell_some:
  assumes "nmd ''dmass_min'' = Some d1" "nmd ''dmass_max'' = Some d2" "nmd ''dmass_ave'' = Some d3"
    "ref ''bin_extent_min'' = Some e1" "ref ''bin_extent_max'' = Some e2" "ref ''bin_extent_ave'' = Some e3"
  shows "newfs_files_cell ref nmd = Some (Map.empty(
      ''num_files_min'' \<mapsto> series_fillna (series_div d1 e2),
      ''num_files_max'' \<mapsto> series_fillna (series_div d2 (map py_max1 e1)),
      ''num_files_ave'' \<mapsto> series_fillna (series_div d3 e3)))"
  using assms by (simp add: newfs_files_cell_def)

lemma newfs_types_cell_some:
  assumes "nfs0 ''num_files_min'' = Some f1" "nfs0 ''num_files_max'' = Some f2" "nfs0 ''num_files_ave'' = Some f3"
    and "ref ''num_files'' = Some rf"
    and "\<forall>t\<in>set NON_FILE_INODE_TYPES. ref (''num_'' @ t) = Some (cnt t)"
  shows "\<exists>nfs. newfs_types_cell ref nfs0 = Some nfs
     \<and> nfs ''num_files_min'' = Some f1 \<and> nfs ''num_files_max'' = Some f2 \<and> nfs ''num_files_ave'' = Some f3
     \<and> (\<forall>t\<in>set NON_FILE_INODE_TYPES.
          nfs (''num_'' @ t @ ''_min'') = Some (series_fillna (series_div (series_mul f1 (cnt t)) rf))
        \<and> nfs (''num_'' @ t @ ''_max'') = Some (series_fillna (series_div (series_mul f2 (cnt t)) rf))
        \<and> nfs (''num_'' @ t @ ''_ave'') = Some (series_fillna (series_div (series_mul f3 (cnt t)) rf)))"
  using assms by (simp add: newfs_types_cell_def REDUCTIONS_def NON_FILE_INODE_TYPES_def INODE_TYPES_def)

lemma calculate_inode_mass_some:
  assumes "\<forall>t\<in>set INODE_TYPES. input_df (''num_'' @ t @ minmax_suffix minmax) \<noteq> None"
    and "ref (''bin_extent_'' @ redux) \<noteq> None"
  shows "calculate_inode_mass ref input_df redux minmax \<noteq> None"
  using assms
  by (auto simp add: calculate_inode_mass_def calculate_inode_mass_body_def
        INODE_TYPES_def NON_FILE_INODE_TYPES_def)

lemma inode_mass_cell_some:
  assumes "\<forall>r\<in>set REDUCTIONS. \<forall>t\<in>set INODE_TYPES. nfs (''num_'' @ t @ ''_'' @ r) \<noteq> None"
    and "\<forall>r\<in>set REDUCTIONS. ref (''bin_extent_'' @ r) \<noteq> None"
  shows "inode_mass_cell ref nfs \<noteq> None"
proof -
  have r: "calculate_inode_mass ref nfs r (Some r) \<noteq> None" if "r \<in> set REDUCTIONS" for r
    using that assms
    by (intro calculate_inode_mass_some) (auto simp add: minmax_suffix_def REDUCTIONS_def)
  obtain v1 where "calculate_inode_mass ref nfs ''min'' (Some ''min'') = Some v1"
    using r[of "''min''"] by (auto simp add: REDUCTIONS_def)
  moreover obtain v2 where "calculate_inode_mass ref nfs ''max'' (Some ''max'') = Some v2"
    using r[of "''max''"] by (auto simp add: REDUCTIONS_def)
  moreover obtain v3 where "calculate_inode_mass ref nfs ''ave'' (Some ''ave'') = Some v3"
    using r[of "''ave''"] by (auto simp add: REDUCTIONS_def)
  ultimately show ?thesis
    by (simp add: inode_mass_cell_def REDUCTIONS_def)
qed

lemma run_notebook_some:
  fixes T :: fval
  assumes ok: "reference_ok idx df0" and nf: "df0 ''num_files'' = Some nf"
  defines "e1 \<equiv> map fin_int (bin_extent_min idx)"
    and "e2 \<equiv> map fin_int idx"
  defines "e3 \<equiv> scalar_div (series_add e1 e2) (Fin 2)"
  defines "m1 \<equiv> series_fillna (series_mul nf e1)"
    and "m2 \<equiv> series_fillna (series_mul nf e2)"
    and "m3 \<equiv> series_fillna (series_mul nf e3)"
  defines "f1 \<equiv> series_fillna (series_div (scalar_mul (scalar_div m1 (fsum m2)) T) e2)"
    and "f2 \<equiv> series_fillna (series_div (scalar_mul (scalar_div m2 (fsum m1)) T) (map py_max1 e1))"
    and "f3 \<equiv> series_fillna (series_div (scalar_mul (scalar_div m3 (fsum m3)) T) e3)"
  shows "\<exists>nb. run_notebook idx df0 T = Some nb
     \<and> reference_df nb = df0(''bin_extent_min'' \<mapsto> e1, ''bin_extent_max'' \<mapsto> e2,
                            ''bin_extent_ave'' \<mapsto> e3)
     \<and> mass_dist nb = Map.empty(''dmass_min'' \<mapsto> m1, ''dmass_max'' \<mapsto> m2, ''dmass_ave'' \<mapsto> m3)
     \<and> mass_dist_sums nb = Map.empty(''dmass_min'' \<mapsto> fsum m1, ''dmass_max'' \<mapsto> fsum m2,
                                       ''dmass_ave'' \<mapsto> fsum m3)
     \<and> prob_dist nb = Map.empty(''dmass_min'' \<mapsto> scalar_div m1 (fsum m2),
                                  ''dmass_max'' \<mapsto> scalar_div m2 (fsum m1),
                                  ''dmass_ave'' \<mapsto> scalar_div m3 (fsum m3))
     \<and> new_mass_dist nb = Map.empty(''dmass_min'' \<mapsto> scalar_mul (scalar_div m1 (fsum m2)) T,
                                  ''dmass_max'' \<mapsto> scalar_mul (scalar_div m2 (fsum m1)) T,
                                  ''dmass_ave'' \<mapsto> scalar_mul (scalar_div m3 (fsum m3)) T)
     \<and> newfs_df nb ''num_files_min'' = Some f1
     \<and> newfs_df nb ''num_files_max'' = Some f2
     \<and> newfs_df nb ''num_files_ave'' = Some f3
     \<and> (\<forall>t\<in>set NON_FILE_INODE_TYPES. \<exists>rt. df0 (''num_'' @ t) = Some rt
          \<and> newfs_df nb (''num_'' @ t @ ''_min'') = Some (series_fillna (series_div (series_mul f1 rt) nf))
          \<and> newfs_df nb (''num_'' @ t @ ''_max'') = Some (series_fillna (series_div (series_mul f2 rt) nf))
          \<and> newfs_df nb (''num_'' @ t @ ''_ave'') = Some (series_fillna (series_div (series_mul f3 rt) nf)))"
proof -
  from ok have len: "2 \<le> length idx" by (simp add: reference_ok_def)
  define ref where "ref = df0(''bin_extent_min'' \<mapsto> e1, ''bin_extent_max'' \<mapsto> e2, ''bin_extent_ave'' \<mapsto> e3)"
  have ref: "reference_df_extents idx df0 = Some ref"
    using reference_df_extents_some[OF len, of df0] by (simp add: ref_def e1_def e2_def e3_def)
  have refc: "ref ''num_files'' = Some nf" "ref ''bin_extent_min'' = Some e1"
     "ref ''bin_extent_max'' = Some e2" "ref ''bin_extent_ave'' = Some e3"
    using nf by (simp_all add: ref_def)
  have reft: "\<forall>t\<in>set NON_FILE_INODE_TYPES. ref (''num_'' @ t) = Some (the (df0 (''num_'' @ t)))"
     and df0t: "\<forall>t\<in>set NON_FILE_INODE_TYPES. df0 (''num_'' @ t) = Some (the (df0 (''num_'' @ t)))"
    using ok by (auto simp add: ref_def reference_ok_def INODE_TYPES_def NON_FILE_INODE_TYPES_def
                  split: option.splits)
  define md where "md = Map.empty(''dmass_min'' \<mapsto> m1, ''dmass_max'' \<mapsto> m2, ''dmass_ave'' \<mapsto> m3)"
  have md: "mass_dist_cell ref = Some md"
    using mass_dist_cell_some[OF refc] by (simp add: md_def m1_def m2_def m3_def)
  define sm where "sm = Map.empty(''dmass_min'' \<mapsto> fsum m1, ''dmass_max'' \<mapsto> fsum m2, ''dmass_ave'' \<mapsto> fsum m3)"
  have sm: "mass_dist_sums_cell md = Some sm"
    using mass_dist_sums_cell_some[of md m1 m2 m3] by (simp add: md_def sm_def)
  define pd where "pd = Map.empty(''dmass_min'' \<mapsto> scalar_div m1 (fsum m2),
       ''dmass_max'' \<mapsto> scalar_div m2 (fsum m1), ''dmass_ave'' \<mapsto> scalar_div m3 (fsum m3))"
  from len have rows: "(idx = []) = False" by auto
  have pd: "prob_dist_cell (idx = []) md sm = Some pd"
    unfolding rows
    using prob_dist_cell_some[of md m1 m2 m3 sm "fsum m1" "fsum m2" "fsum m3"]
    by (simp add: md_def sm_def pd_def)
  define nmd where "nmd = Map.empty(''dmass_min'' \<mapsto> scalar_mul (scalar_div m1 (fsum m2)) T,
       ''dmass_max'' \<mapsto> scalar_mul (scalar_div m2 (fsum m1)) T,
       ''dmass_ave'' \<mapsto> scalar_mul (scalar_div m3 (fsum m3)) T)"
  have nmd: "new_mass_dist_cell pd T = Some nmd"
    using new_mass_dist_cell_some[of pd "scalar_div m1 (fsum m2)" "scalar_div m2 (fsum m1)"
        "scalar_div m3 (fsum m3)" T]
    by (simp add: pd_def nmd_def)
  define nfs0 where "nfs0 = Map.empty(''num_files_min'' \<mapsto> f1, ''num_files_max'' \<mapsto> f2, ''num_files_ave'' \<mapsto> f3)"
  have nfs0: "newfs_files_cell ref nmd = Some nfs0"
    using newfs_files_cell_some[of nmd _ _ _ ref e1 e2 e3] refc
    by (simp add: nmd_def nfs0_def f1_def f2_def f3_def)
  from newfs_types_cell_some[of nfs0 f1 f2 f3 ref nf "\<lambda>t. the (df0 (''num_'' @ t))"] refc reft
  obtain nfs where nfs: "newfs_types_cell ref nfs0 = Some nfs"
      "nfs ''num_files_min'' = Some f1" "nfs ''num_files_max'' = Some f2" "nfs ''num_files_ave'' = Some f3"
      "\<forall>t\<in>set NON_FILE_INODE_TYPES.
          nfs (''num_'' @ t @ ''_min'') = Some (series_fillna (series_div (series_mul f1 (the (df0 (''num_'' @ t)))) nf))
        \<and> nfs (''num_'' @ t @ ''_max'') = Some (series_fillna (series_div (series_mul f2 (the (df0 (''num_'' @ t)))) nf))
        \<and> nfs (''num_'' @ t @ ''_ave'') = Some (series_fillna (series_div (series_mul f3 (the (df0 (''num_'' @ t)))) nf))"
    by (auto simp add: nfs0_def)
  have "inode_mass_cell ref nfs \<noteq> None"
  proof (rule inode_mass_cell_some)
    show "\<forall>r\<in>set REDUCTIONS. \<forall>t\<in>set INODE_TYPES. nfs (''num_'' @ t @ ''_'' @ r) \<noteq> None"
      using nfs(2-5) by (simp add: REDUCTIONS_def INODE_TYPES_def NON_FILE_INODE_TYPES_def)
    show "\<forall>r\<in>set REDUCTIONS. ref (''bin_extent_'' @ r) \<noteq> None"
      using refc by (simp add: REDUCTIONS_def)
  qed
  then obtain im where im: "inode_mass_cell ref nfs = Some im" by auto
  have run: "run_notebook idx df0 T = Some \<lparr>reference_df = ref, mass_dist = md, mass_dist_sums = sm,
      prob_dist = pd, new_mass_dist = nmd, newfs_df = nfs, inode_mass = im\<rparr>"
    using ref md sm pd nmd nfs0 nfs(1) im by (simp add: run_notebook_def)
  have types: "\<exists>rt. df0 (''num_'' @ t) = Some rt
          \<and> nfs (''num_'' @ t @ ''_min'') = Some (series_fillna (series_div (series_mul f1 rt) nf))
          \<and> nfs (''num_'' @ t @ ''_max'') = Some (series_fillna (series_div (series_mul f2 rt) nf))
          \<and> nfs (''num_'' @ t @ ''_ave'') = Some (series_fillna (series_div (series_mul f3 rt) nf))"
    if "t \<in> set NON_FILE_INODE_TYPES" for t
    using bspec[OF nfs(5) that] bspec[OF df0t that] by blast
  show ?thesis
    unfolding run
    by (intro exI[of _ "\<lparr>reference_df = ref, mass_dist = md, mass_dist_sums = sm,
      prob_dist = pd, new_mass_dist = nmd, newfs_df = nfs, inode_mass = im\<rparr>"] conjI ballI)
       (simp_all add: ref_def md_def sm_def pd_def nmd_def nfs(2-4) types del: append.simps)
qed

subsection \<open>The columns in terms of the counts\<close>

text \<open>
  With counts that are non-negative or missing, every mass is a finite number: the count
  (0 for a missing one) times the extent.
\<close>

lemma mass_entry: "count_ok x \<Longrightarrow> fillna (fmul x (Fin e)) = Fin (count_val x * e)"
  by (cases x) (simp_all add: count_ok_def count_val_def)

lemma count_val_nonneg: "count_ok x \<Longrightarrow> 0 \<le> count_val x"
  by (cases x) (simp_all add: count_ok_def count_val_def)

lemma fsum_map_Fin: "fsum (map (\<lambda>i. Fin (g i)) xs) = Fin (sum_list (map g xs))"
  by (induction xs) simp_all

lemma mass_column:
  assumes "\<forall>x\<in>set nf. count_ok x" and "length nf = n" and "length e = n"
    and "\<forall>i<n. e ! i = Fin (g i)"
  shows "series_fillna (series_mul nf e) = map (\<lambda>i. Fin (count_val (nf ! i) * g i)) [0..<n]"
  using assms by (auto simp add: list_eq_iff_nth_eq series_fillna_def series_mul_def mass_entry)

lemma run_notebook_counts:
  fixes T :: fval
  assumes ok: "reference_ok idx df0" and nf: "df0 ''num_files'' = Some nf"
    and counts: "\<forall>x\<in>set nf. count_ok x"
  defines "n \<equiv> length idx"
    and "c \<equiv> \<lambda>i. count_val (nf ! i)"
    and "a \<equiv> \<lambda>i. real_of_int (bin_extent_min idx ! i)"
    and "b \<equiv> \<lambda>i. real_of_int (idx ! i)"
  defines "s1 \<equiv> sum_list (map (\<lambda>i. c i * a i) [0..<n])"
    and "s2 \<equiv> sum_list (map (\<lambda>i. c i * b i) [0..<n])"
    and "s3 \<equiv> sum_list (map (\<lambda>i. c i * ((a i + b i) / 2)) [0..<n])"
  shows "\<exists>nb. run_notebook idx df0 T = Some nb
     \<and> mass_dist nb = Map.empty(''dmass_min'' \<mapsto> map (\<lambda>i. Fin (c i * a i)) [0..<n],
                                  ''dmass_max'' \<mapsto> map (\<lambda>i. Fin (c i * b i)) [0..<n],
                                  ''dmass_ave'' \<mapsto> map (\<lambda>i. Fin (c i * ((a i + b i) / 2))) [0..<n])
     \<and> mass_dist_sums nb = Map.empty(''dmass_min'' \<mapsto> Fin s1, ''dmass_max'' \<mapsto> Fin s2,
                                       ''dmass_ave'' \<mapsto> Fin s3)
     \<and> prob_dist nb = Map.empty(
           ''dmass_min'' \<mapsto> map (\<lambda>i. fdiv (Fin (c i * a i)) (Fin s2)) [0..<n],
           ''dmass_max'' \<mapsto> map (\<lambda>i. fdiv (Fin (c i * b i)) (Fin s1)) [0..<n],
           ''dmass_ave'' \<mapsto> map (\<lambda>i. fdiv (Fin (c i * ((a i + b i) / 2))) (Fin s3)) [0..<n])
     \<and> newfs_df nb ''num_files_min'' = Some (map (\<lambda>i. fillna
           (fdiv (fmul (fdiv (Fin (c i * a i)) (Fin s2)) T) (Fin (b i)))) [0..<n])
     \<and> newfs_df nb ''num_files_max'' = Some (map (\<lambda>i. fillna
           (fdiv (fmul (fdiv (Fin (c i * b i)) (Fin s1)) T) (py_max1 (Fin (a i))))) [0..<n])
     \<and> newfs_df nb ''num_files_ave'' = Some (map (\<lambda>i. fillna
           (fdiv (fmul (fdiv (Fin (c i * ((a i + b i) / 2))) (Fin s3)) T)
                 (Fin ((a i + b i) / 2)))) [0..<n])"
proof -
  from ok nf have len: "2 \<le> length idx" "length nf = n"
    by (simp_all add: reference_ok_def INODE_TYPES_def n_def)
  define e1 where "e1 = map fin_int (bin_extent_min idx)"
  define e2 where "e2 = map fin_int idx"
  define e3 where "e3 = scalar_div (series_add e1 e2) (Fin 2)"
  have le: "length e1 = n" "length e2 = n" "length e3 = n"
    using len by (simp_all add: e1_def e2_def e3_def n_def length_bin_extent_min scalar_div_def
        series_add_def)
  have e1: "\<forall>i<n. e1 ! i = Fin (a i)"
    using len by (simp add: e1_def a_def fin_int_def n_def length_bin_extent_min)
  have e2: "\<forall>i<n. e2 ! i = Fin (b i)"
    by (simp add: e2_def b_def fin_int_def n_def)
  have e3: "\<forall>i<n. e3 ! i = Fin ((a i + b i) / 2)"
    using le e1 e2 by (simp add: e3_def scalar_div_def series_add_def)
  have m1: "series_fillna (series_mul nf e1) = map (\<lambda>i. Fin (c i * a i)) [0..<n]"
    unfolding c_def by (rule mass_column[OF counts len(2) le(1) e1])
  have m2: "series_fillna (series_mul nf e2) = map (\<lambda>i. Fin (c i * b i)) [0..<n]"
    unfolding c_def by (rule mass_column[OF counts len(2) le(2) e2])
  have m3: "series_fillna (series_mul nf e3) = map (\<lambda>i. Fin (c i * ((a i + b i) / 2))) [0..<n]"
    unfolding c_def by (rule mass_column[OF counts len(2) le(3) e3])
  have s: "fsum (map (\<lambda>i. Fin (c i * a i)) [0..<n]) = Fin s1"
      "fsum (map (\<lambda>i. Fin (c i * b i)) [0..<n]) = Fin s2"
      "fsum (map (\<lambda>i. Fin (c i * ((a i + b i) / 2))) [0..<n]) = Fin s3"
    by (simp_all add: fsum_map_Fin s1_def s2_def s3_def)
  from run_notebook_some[OF ok nf, of T]
  obtain nb where nb: "run_notebook idx df0 T = Some nb"
    "mass_dist nb = Map.empty(''dmass_min'' \<mapsto> series_fillna (series_mul nf e1),
         ''dmass_max'' \<mapsto> series_fillna (series_mul nf e2),
         ''dmass_ave'' \<mapsto> series_fillna (series_mul nf e3))"
    "mass_dist_sums nb = Map.empty(''dmass_min'' \<mapsto> fsum (series_fillna (series_mul nf e1)),
         ''dmass_max'' \<mapsto> fsum (series_fillna (series_mul nf e2)),
         ''dmass_ave'' \<mapsto> fsum (series_fillna (series_mul nf e3)))"
    "prob_dist nb = Map.empty(
         ''dmass_min'' \<mapsto> scalar_div (series_fillna (series_mul nf e1)) (fsum (series_fillna (series_mul nf e2))),
         ''dmass_max'' \<mapsto> scalar_div (series_fillna (series_mul nf e2)) (fsum (series_fillna (series_mul nf e1))),
         ''dmass_ave'' \<mapsto> scalar_div (series_fillna (series_mul nf e3)) (fsum (series_fillna (series_mul nf e3))))"
    "newfs_df nb ''num_files_min'' = Some (series_fillna (series_div (scalar_mul (scalar_div
         (series_fillna (series_mul nf e1)) (fsum (series_fillna (series_mul nf e2)))) T) e2))"
    "newfs_df nb ''num_files_max'' = Some (series_fillna (series_div (scalar_mul (scalar_div
         (series_fillna (series_mul nf e2)) (fsum (series_fillna (series_mul nf e1)))) T) (map py_max1 e1)))"
    "newfs_df nb ''num_files_ave'' = Some (series_fillna (series_div (scalar_mul (scalar_div
         (series_fillna (series_mul nf e3)) (fsum (series_fillna (series_mul nf e3)))) T) e3))"
    unfolding e1_def e2_def e3_def by blast
  have p: "scalar_div (map (\<lambda>i. Fin (g i)) [0..<n]) s = map (\<lambda>i. fdiv (Fin (g i)) s) [0..<n]" for g s
    by (simp add: scalar_div_def)
  have f1: "series_fillna (series_div (scalar_mul (map (\<lambda>i. fdiv (Fin (c i * a i)) (Fin s2)) [0..<n]) T) e2)
      = map (\<lambda>i. fillna (fdiv (fmul (fdiv (Fin (c i * a i)) (Fin s2)) T) (Fin (b i)))) [0..<n]"
    using le e2 by (simp add: list_eq_iff_nth_eq series_fillna_def series_div_def scalar_mul_def)
  have f2: "series_fillna (series_div (scalar_mul (map (\<lambda>i. fdiv (Fin (c i * b i)) (Fin s1)) [0..<n]) T) (map py_max1 e1))
      = map (\<lambda>i. fillna (fdiv (fmul (fdiv (Fin (c i * b i)) (Fin s1)) T) (py_max1 (Fin (a i))))) [0..<n]"
    using le e1 by (simp add: list_eq_iff_nth_eq series_fillna_def series_div_def scalar_mul_def)
  have f3: "series_fillna (series_div (scalar_mul (map (\<lambda>i. fdiv (Fin (c i * ((a i + b i) / 2))) (Fin s3)) [0..<n]) T) e3)
      = map (\<lambda>i. fillna (fdiv (fmul (fdiv (Fin (c i * ((a i + b i) / 2))) (Fin s3)) T) (Fin ((a i + b i) / 2)))) [0..<n]"
    using le e3 by (simp add: list_eq_iff_nth_eq series_fillna_def series_div_def scalar_mul_def)
  show ?thesis
    using nb unfolding m1 m2 m3 s p f1 f2 f3 by blast
qed

subsection \<open>The three projected counts of one bin\<close>

lemma py_max1_Fin: "py_max1 (Fin x) = Fin (max 1 x)"
  by (simp add: py_max1_def fgt_def max_def)

lemma elem_le_sum_list:
  fixes g :: "nat \<Rightarrow> real"
  assumes "\<forall>x\<in>set xs. 0 \<le> g x" and "j \<in> set xs"
  shows "g j \<le> sum_list (map g xs)"
  using assms
proof (induction xs)
  case Nil
  then show ?case by simp
next
  case (Cons x xs)
  have nn: "0 \<le> sum_list (map g xs)"
    using Cons.prems(1) by (intro sum_list_nonneg) auto
  show ?case
  proof (cases "j = x")
    case True
    then show ?thesis using nn by simp
  next
    case False
    then have "g j \<le> sum_list (map g xs)" using Cons by simp
    moreover have "0 \<le> g x" using Cons.prems(1) by simp
    ultimately show ?thesis by simp
  qed
qed

lemma zero_chain: "fillna (fdiv (fmul (fdiv (Fin 0) (Fin s)) (Fin t)) (Fin e)) = Fin 0"
  by simp

lemma bound_order_bin:
  fixes c a b t s1 s2 s3 :: real
  assumes c: "0 \<le> c" and a: "0 \<le> a" and ab: "a \<le> b" and b: "b = 0 \<or> 1 \<le> b" and t: "0 < t"
    and m1: "c * a \<le> s1" and m2: "c * b \<le> s2" and m3: "c * ((a + b) / 2) \<le> s3"
    and s1: "0 \<le> s1" and s13: "s1 \<le> s3" and s32: "s3 \<le> s2"
  shows "fle (fillna (fdiv (fmul (fdiv (Fin (c * a)) (Fin s2)) (Fin t)) (Fin b)))
             (fillna (fdiv (fmul (fdiv (Fin (c * ((a + b) / 2))) (Fin s3)) (Fin t))
                           (Fin ((a + b) / 2))))
       \<and> fle (fillna (fdiv (fmul (fdiv (Fin (c * ((a + b) / 2))) (Fin s3)) (Fin t))
                           (Fin ((a + b) / 2))))
             (fillna (fdiv (fmul (fdiv (Fin (c * b)) (Fin s1)) (Fin t)) (py_max1 (Fin a))))"
proof (cases "c * b = 0")
  case True
  then have z: "c * a = 0" "c * ((a + b) / 2) = 0"
    using a ab c by auto
  show ?thesis
    unfolding True z py_max1_Fin zero_chain by simp
next
  case False
  then have cpos: "0 < c" and bpos: "1 \<le> b" using c b by auto
  define m where "m = (a + b) / 2"
  have mpos: "0 < m" using a bpos by (simp add: m_def)
  have s3pos: "0 < s3" using m3 cpos mpos unfolding m_def[symmetric]
    by (meson less_le_trans mult_pos_pos)
  have s2pos: "0 < s2" using s3pos s32 by simp
  have ave: "fillna (fdiv (fmul (fdiv (Fin (c * m)) (Fin s3)) (Fin t)) (Fin m)) = Fin (c * t / s3)"
    using s3pos mpos by simp
  have mn: "fillna (fdiv (fmul (fdiv (Fin (c * a)) (Fin s2)) (Fin t)) (Fin b))
      = Fin (c * a / s2 * t / b)"
    using s2pos bpos by simp
  have "c * a / s2 * t / b = (c * t) * (a / b) / s2" by (simp add: field_simps)
  also have "\<dots> \<le> (c * t) * 1 / s2"
    using cpos t ab bpos s2pos by (intro divide_right_mono mult_left_mono) auto
  also have "\<dots> \<le> c * t / s3"
    using cpos t s3pos s32 by (simp add: frac_le)
  finally have le1: "c * a / s2 * t / b \<le> c * t / s3" .
  have le2: "fle (Fin (c * t / s3))
      (fillna (fdiv (fmul (fdiv (Fin (c * b)) (Fin s1)) (Fin t)) (py_max1 (Fin a))))"
  proof (cases "s1 = 0")
    case True
    then show ?thesis using cpos bpos t by (simp add: py_max1_Fin)
  next
    case False
    then have s1pos: "0 < s1" using s1 by simp
    have mx: "0 < max 1 a" "max 1 a \<le> b" using ab bpos by auto
    have "c * t / s3 \<le> c * t / s1"
      using cpos t s1pos s13 by (simp add: frac_le)
    also have "\<dots> = (c * t) * 1 / s1" by simp
    also have "\<dots> \<le> (c * t) * (b / max 1 a) / s1"
      using cpos t mx s1pos by (intro divide_right_mono mult_left_mono) auto
    also have "\<dots> = c * b / s1 * t / max 1 a" by (simp add: field_simps)
    finally have "c * t / s3 \<le> c * b / s1 * t / max 1 a" .
    then show ?thesis using s1pos mx by (simp add: py_max1_Fin)
  qed
  show ?thesis
    unfolding m_def[symmetric] ave mn using le1 le2 by simp
qed

subsection \<open>Columns of a run\<close>

lemmas series_defs = bin_extent_min_def series_mul_def series_div_def series_add_def
  series_max_def scalar_mul_def scalar_div_def series_fillna_def fin_int_def py_max1_def fgt_def

lemma example_df_files: "example_df files dirs ''num_files'' = Some files"
  by (simp add: example_df_def)

lemma notebook_column_eqs:
  fixes T :: fval
  assumes ok: "reference_ok idx df0" and nf: "df0 ''num_files'' = Some nf"
  defines "e1 \<equiv> map fin_int (bin_extent_min idx)"
    and "e2 \<equiv> map fin_int idx"
  defines "e3 \<equiv> scalar_div (series_add e1 e2) (Fin 2)"
  defines "m1 \<equiv> series_fillna (series_mul nf e1)"
    and "m2 \<equiv> series_fillna (series_mul nf e2)"
    and "m3 \<equiv> series_fillna (series_mul nf e3)"
  shows "notebook_column (run_notebook idx df0 T) mass_dist ''dmass_min'' = Some m1"
    and "notebook_column (run_notebook idx df0 T) mass_dist ''dmass_max'' = Some m2"
    and "notebook_column (run_notebook idx df0 T) mass_dist ''dmass_ave'' = Some m3"
    and "notebook_column (run_notebook idx df0 T) prob_dist ''dmass_min'' = Some (scalar_div m1 (fsum m2))"
    and "notebook_column (run_notebook idx df0 T) prob_dist ''dmass_max'' = Some (scalar_div m2 (fsum m1))"
    and "notebook_column (run_notebook idx df0 T) prob_dist ''dmass_ave'' = Some (scalar_div m3 (fsum m3))"
    and "notebook_column (run_notebook idx df0 T) newfs_df ''num_files_min''
           = Some (series_fillna (series_div (scalar_mul (scalar_div m1 (fsum m2)) T) e2))"
    and "notebook_column (run_notebook idx df0 T) newfs_df ''num_files_max''
           = Some (series_fillna (series_div (scalar_mul (scalar_div m2 (fsum m1)) T) (map py_max1 e1)))"
    and "notebook_column (run_notebook idx df0 T) newfs_df ''num_files_ave''
           = Some (series_fillna (series_div (scalar_mul (scalar_div m3 (fsum m3)) T) e3))"
  using run_notebook_some[OF ok nf, of T]
  unfolding e1_def e2_def e3_def m1_def m2_def m3_def
  by (auto simp add: notebook_column_def)

lemma notebook_entry_eqs:
  fixes T :: fval
  assumes ok: "reference_ok idx df0" and nf: "df0 ''num_files'' = Some nf"
  defines "e1 \<equiv> map fin_int (bin_extent_min idx)"
    and "e2 \<equiv> map fin_int idx"
  defines "e3 \<equiv> scalar_div (series_add e1 e2) (Fin 2)"
  shows "notebook_entry (run_notebook idx df0 T) mass_dist_sums ''dmass_min''
           = Some (fsum (series_fillna (series_mul nf e1)))"
    and "notebook_entry (run_notebook idx df0 T) mass_dist_sums ''dmass_max''
           = Some (fsum (series_fillna (series_mul nf e2)))"
    and "notebook_entry (run_notebook idx df0 T) mass_dist_sums ''dmass_ave''
           = Some (fsum (series_fillna (series_mul nf e3)))"
  using run_notebook_some[OF ok nf, of T]
  unfolding e1_def e2_def e3_def
  by (auto simp add: notebook_entry_def)

lemma reference_ok_example:
  "2 \<le> length idx \<Longrightarrow> length files = length idx \<Longrightarrow> length dirs = length idx
   \<Longrightarrow> reference_ok idx (example_df files dirs)"
  by (simp add: reference_ok_def example_df_def INODE_TYPES_def)

subsection \<open>Arithmetic of single entries\<close>

lemma fmul_fdiv_assoc: "fdiv (fmul p r) f = fmul p (fdiv r f)"
  by (cases p; cases r; cases f)
     (auto simp add: zero_less_mult_iff mult_less_0_iff zero_le_mult_iff mult_le_0_iff
        divide_less_0_iff zero_less_divide_iff zero_le_divide_iff divide_le_0_iff not_le not_less)

subsection \<open>The lower extents\<close>

text \<open>
  The lower extents bin by bin, and a condition on the boundaries under which every bin has
  \<open>0 <= bin_extent_min <= bin_extent_max\<close>: a first boundary that is not negative, a second
  one of at least 2, and boundaries that increase from the second on.
\<close>

lemma bin_extent_min_nth:
  assumes "2 \<le> length idx"
  shows "bin_extent_min idx ! 0 = 0" and "bin_extent_min idx ! 1 = 2"
    and "\<And>i. 2 \<le> i \<Longrightarrow> i < length idx \<Longrightarrow> bin_extent_min idx ! i = idx ! (i - 1) + 1"
proof -
  show "bin_extent_min idx ! 0 = 0" "bin_extent_min idx ! 1 = 2"
    by (simp_all add: bin_extent_min_def)
  fix i assume i: "2 \<le> i" "i < length idx"
  then have "i - 2 < length (butlast (tl idx))" by simp
  then have "map (\<lambda>x. x + 1) (butlast (tl idx)) ! (i - 2) = idx ! (i - 1) + 1"
    using i by (simp add: nth_butlast nth_tl Suc_diff_Suc numeral_2_eq_2)
  moreover have "bin_extent_min idx ! i = map (\<lambda>x. x + 1) (butlast (tl idx)) ! (i - 2)"
    using i by (simp add: bin_extent_min_def nth_Cons' numeral_2_eq_2)
  ultimately show "bin_extent_min idx ! i = idx ! (i - 1) + 1" by simp
qed

lemma boundaries_from_second:
  fixes idx :: "int list"
  assumes "2 \<le> idx ! 1" and "\<forall>i. 2 \<le> i \<and> i < length idx \<longrightarrow> idx ! (i - 1) < idx ! i"
  shows "1 \<le> j \<Longrightarrow> j < length idx \<Longrightarrow> 2 \<le> idx ! j"
proof (induction j)
  case 0
  then show ?case by simp
next
  case (Suc j)
  show ?case
  proof (cases "j = 0")
    case True
    then show ?thesis using assms(1) by simp
  next
    case False
    then have "2 \<le> idx ! j" using Suc by simp
    moreover have "idx ! j < idx ! Suc j"
      using assms(2)[rule_format, of "Suc j"] False Suc.prems by simp
    ultimately show ?thesis by simp
  qed
qed

lemma extents_ordered_if_increasing:
  fixes idx :: "int list"
  assumes len: "2 \<le> length idx" and first: "0 \<le> idx ! 0" and second: "2 \<le> idx ! 1"
    and inc: "\<forall>i. 2 \<le> i \<and> i < length idx \<longrightarrow> idx ! (i - 1) < idx ! i"
  shows "\<forall>i<length idx. 0 \<le> bin_extent_min idx ! i \<and> bin_extent_min idx ! i \<le> idx ! i"
proof (intro allI impI)
  fix i assume i: "i < length idx"
  consider "i = 0" | "i = 1" | "2 \<le> i" by linarith
  then show "0 \<le> bin_extent_min idx ! i \<and> bin_extent_min idx ! i \<le> idx ! i"
  proof cases
    case 1
    then show ?thesis using bin_extent_min_nth(1)[OF len] first by simp
  next
    case 2
    then show ?thesis using bin_extent_min_nth(2)[OF len] second by simp
  next
    case 3
    have "2 \<le> idx ! (i - 1)"
      using boundaries_from_second[OF second inc, of "i - 1"] 3 i by simp
    moreover have "idx ! (i - 1) < idx ! i" using inc 3 i by simp
    ultimately show ?thesis using bin_extent_min_nth(3)[OF len 3 i] by simp
  qed
qed

subsection \<open>Sums, zero counts and lengths\<close>

lemma sum_list_divide_const:
  fixes g :: "'a \<Rightarrow> real"
  shows "sum_list (map (\<lambda>i. g i / s) xs) = sum_list (map g xs) / s"
  by (induction xs) (simp_all add: add_divide_distrib)

lemma fsum_scaled:
  assumes "s \<noteq> 0"
  shows "fsum (map (\<lambda>i. fdiv (Fin (g i)) (Fin s)) xs) = Fin (sum_list (map g xs) / s)"
proof -
  have "(\<lambda>i. fdiv (Fin (g i)) (Fin s)) = (\<lambda>i. Fin (g i / s))"
    using assms by simp
  then show ?thesis
    by (simp only: fsum_map_Fin sum_list_divide_const)
qed

lemma roundtrip_bin:
  assumes "s \<noteq> 0"
  shows "fillna (fdiv (fmul (fdiv (Fin (c * m)) (Fin s)) (Fin s)) (Fin m))
           = (if m = 0 then Fin 0 else Fin c)"
  using assms by simp

lemma zn_fdiv: "x = Fin 0 \<or> x = NaN \<Longrightarrow> fdiv x y = Fin 0 \<or> fdiv x y = NaN"
  by (cases y) auto

lemma zn_fmul: "x = Fin 0 \<or> x = NaN \<Longrightarrow> fmul x y = Fin 0 \<or> fmul x y = NaN"
  by (cases y) auto

lemma zn_fillna: "x = Fin 0 \<or> x = NaN \<Longrightarrow> fillna x = Fin 0"
  by auto

lemma projected_zero: "fillna (fdiv (fmul (fdiv (fillna (fmul (Fin 0) (Fin e))) S) T) E) = Fin 0"
proof -
  have "fillna (fmul (Fin 0) (Fin e)) = Fin 0" by simp
  then show ?thesis
    by (simp only: zn_fillna[OF zn_fdiv[OF zn_fmul[OF zn_fdiv[OF disjI1[OF refl]]]]])
qed

lemma type_zero: "fillna (fdiv (fmul (Fin 0) r) (Fin 0)) = Fin 0"
  by (cases r) auto

lemma files_zero_bin:
  assumes "i < length nf" "i < length e" "i < length E" "nf ! i = Fin 0" "e ! i = Fin x"
  shows "series_fillna (series_div (scalar_mul (scalar_div (series_fillna (series_mul nf e)) S) T) E) ! i
           = Fin 0"
proof -
  have "series_fillna (series_div (scalar_mul (scalar_div (series_fillna (series_mul nf e)) S) T) E) ! i
      = fillna (fdiv (fmul (fdiv (fillna (fmul (nf ! i) (e ! i))) S) T) (E ! i))"
    using assms(1-3)
    by (simp add: series_fillna_def series_div_def scalar_mul_def scalar_div_def series_mul_def
          del: fdiv.simps fmul.simps fillna.simps)
  then show ?thesis unfolding assms(4,5) projected_zero .
qed

lemma extent_columns_finite:
  assumes "2 \<le> length idx" "i < length idx"
  shows "map fin_int (bin_extent_min idx) ! i = Fin (real_of_int (bin_extent_min idx ! i))"
    and "map fin_int idx ! i = Fin (real_of_int (idx ! i))"
    and "scalar_div (series_add (map fin_int (bin_extent_min idx)) (map fin_int idx)) (Fin 2) ! i
           = Fin ((real_of_int (bin_extent_min idx ! i) + real_of_int (idx ! i)) / 2)"
  using assms
  by (simp_all add: length_bin_extent_min fin_int_def scalar_div_def series_add_def)

lemma reference_ok_length:
  assumes "reference_ok idx df0" "t \<in> set INODE_TYPES" "df0 (''num_'' @ t) = Some rt"
  shows "length rt = length idx"
  using assms by (auto simp add: reference_ok_def split: option.splits)

lemma non_file_inode_type: "t \<in> set NON_FILE_INODE_TYPES \<Longrightarrow> t \<in> set INODE_TYPES"
  by (auto simp add: NON_FILE_INODE_TYPES_def INODE_TYPES_def)

lemma type_count_bin:
  assumes "i < length pf" "i < length rt" "i < length nf"
  shows "series_fillna (series_div (series_mul pf rt) nf) ! i
           = fillna (fmul (pf ! i) (fdiv (rt ! i) (nf ! i)))"
  using assms
  by (simp add: series_fillna_def series_div_def series_mul_def fmul_fdiv_assoc
        del: fdiv.simps fmul.simps fillna.simps)

lemma newfs_files_from_new_mass:
  assumes ok: "reference_ok idx df0" and nf: "df0 ''num_files'' = Some nf"
    and run: "run_notebook idx df0 T = Some nb"
  shows "\<exists>dmin dmax dave emin emax eave.
       new_mass_dist nb ''dmass_min'' = Some dmin \<and> new_mass_dist nb ''dmass_max'' = Some dmax
     \<and> new_mass_dist nb ''dmass_ave'' = Some dave
     \<and> reference_df nb ''bin_extent_min'' = Some emin
     \<and> reference_df nb ''bin_extent_max'' = Some emax
     \<and> reference_df nb ''bin_extent_ave'' = Some eave
     \<and> newfs_df nb ''num_files_min'' = Some (series_fillna (series_div dmin emax))
     \<and> newfs_df nb ''num_files_max'' = Some (series_fillna (series_div dmax (map py_max1 emin)))
     \<and> newfs_df nb ''num_files_ave'' = Some (series_fillna (series_div dave eave))"
  using run_notebook_some[OF ok nf, of T] run by auto

section \<open>The inversion of reductions\<close>

text \<open>
  Claim C10. \<open>invert_redux\<close> is an involution on every string: it swaps \<open>min\<close> and
  \<open>max\<close> and returns any other string, \<open>ave\<close> among them, as it is.
\<close>

theorem invert_redux_involution:
  "invert_redux (invert_redux r) = r
   \<and> invert_redux ''min'' = ''max''
   \<and> invert_redux ''max'' = ''min''
   \<and> invert_redux ''ave'' = ''ave''
   \<and> (r \<noteq> ''min'' \<and> r \<noteq> ''max'' \<longrightarrow> invert_redux r = r)"
  by (simp add: invert_redux_def)

theorem invert_redux_involution_witness:
  "''ave'' \<noteq> ''min'' \<and> ''ave'' \<noteq> ''max'' \<and> invert_redux ''ave'' = ''ave''
   \<and> invert_redux (invert_redux ''ave'') = ''ave''"
  using invert_redux_involution[of "''ave''"] by simp

section \<open>The probability distribution\<close>

text \<open>
  Claim C1. On every reference histogram the notebook runs to its end, and for each
  reduction \<open>r\<close> of \<open>min\<close>, \<open>max\<close>, \<open>ave\<close> the column \<open>dmass_r\<close> of \<open>prob_dist\<close> is the
  column \<open>dmass_r\<close> of \<open>mass_dist\<close> divided, bin by bin, by the total of the column of the
  inverted reduction: \<open>min\<close> by the \<open>max\<close> total, \<open>max\<close> by the \<open>min\<close> total, \<open>ave\<close> by its own.
\<close>

theorem prob_dist_cross_denominator:
  assumes "reference_ok idx df0"
  shows "\<exists>nb. run_notebook idx df0 T = Some nb
     \<and> (\<forall>redux\<in>set REDUCTIONS. \<exists>m mo.
           mass_dist nb (''dmass_'' @ redux) = Some m
         \<and> mass_dist nb (''dmass_'' @ invert_redux redux) = Some mo
         \<and> mass_dist_sums nb (''dmass_'' @ invert_redux redux) = Some (fsum mo)
         \<and> prob_dist nb (''dmass_'' @ redux) = Some (map (\<lambda>x. fdiv x (fsum mo)) m))
     \<and> (\<exists>m1 m2 m3. mass_dist nb ''dmass_min'' = Some m1 \<and> mass_dist nb ''dmass_max'' = Some m2
           \<and> mass_dist nb ''dmass_ave'' = Some m3
           \<and> prob_dist nb ''dmass_min'' = Some (map (\<lambda>x. fdiv x (fsum m2)) m1)
           \<and> prob_dist nb ''dmass_max'' = Some (map (\<lambda>x. fdiv x (fsum m1)) m2)
           \<and> prob_dist nb ''dmass_ave'' = Some (map (\<lambda>x. fdiv x (fsum m3)) m3))"
proof -
  from assms obtain nf where nf: "df0 ''num_files'' = Some nf"
    by (auto simp add: reference_ok_def INODE_TYPES_def split: option.splits)
  from run_notebook_some[OF assms nf, of T] show ?thesis
    by (auto simp add: REDUCTIONS_def invert_redux_def scalar_div_def)
qed

theorem prob_dist_cross_denominator_witness:
  "reference_ok [1, 2, 4] (example_df [Fin 0, Fin 0, Fin 1] [Fin 1, Fin 1, Fin 1])
   \<and> (\<exists>nb m1 m2. run_notebook [1, 2, 4] (example_df [Fin 0, Fin 0, Fin 1] [Fin 1, Fin 1, Fin 1])
                     (Fin 1) = Some nb
          \<and> mass_dist nb ''dmass_min'' = Some m1 \<and> mass_dist nb ''dmass_max'' = Some m2
          \<and> prob_dist nb ''dmass_min'' = Some (map (\<lambda>x. fdiv x (fsum m2)) m1))
   \<and> notebook_column (run_notebook [1, 2, 4]
          (example_df [Fin 0, Fin 0, Fin 1] [Fin 1, Fin 1, Fin 1]) (Fin 1))
        mass_dist ''dmass_max'' = Some [Fin 0, Fin 0, Fin 4]
   \<and> notebook_column (run_notebook [1, 2, 4]
          (example_df [Fin 0, Fin 0, Fin 1] [Fin 1, Fin 1, Fin 1]) (Fin 1))
        prob_dist ''dmass_min'' = Some [Fin 0, Fin 0, Fin (3 / 4)]"
proof -
  have ok: "reference_ok [1, 2, 4] (example_df [Fin 0, Fin 0, Fin 1] [Fin 1, Fin 1, Fin 1])"
    by (simp add: reference_ok_example)
  have ex: "\<exists>nb m1 m2. run_notebook [1, 2, 4] (example_df [Fin 0, Fin 0, Fin 1] [Fin 1, Fin 1, Fin 1])
                     (Fin 1) = Some nb
          \<and> mass_dist nb ''dmass_min'' = Some m1 \<and> mass_dist nb ''dmass_max'' = Some m2
          \<and> prob_dist nb ''dmass_min'' = Some (map (\<lambda>x. fdiv x (fsum m2)) m1)"
    using prob_dist_cross_denominator[OF ok, of "Fin 1"] by blast
  have vals: "notebook_column (run_notebook [1, 2, 4]
          (example_df [Fin 0, Fin 0, Fin 1] [Fin 1, Fin 1, Fin 1]) (Fin 1))
        mass_dist ''dmass_max'' = Some [Fin 0, Fin 0, Fin 4]"
      "notebook_column (run_notebook [1, 2, 4]
          (example_df [Fin 0, Fin 0, Fin 1] [Fin 1, Fin 1, Fin 1]) (Fin 1))
        prob_dist ''dmass_min'' = Some [Fin 0, Fin 0, Fin (3 / 4)]"
    unfolding notebook_column_eqs[OF ok example_df_files]
    by (simp_all add: series_defs)
  show ?thesis using ok ex vals by blast
qed

section \<open>The projected file counts\<close>

text \<open>
  When every bin's derived extents are in order (\<open>0 <= bin_extent_min <= bin_extent_max\<close>),
  the counts are non-negative or missing and the target capacity is positive, the notebook
  runs to its end and in every bin \<open>num_files_min <= num_files_ave <= num_files_max\<close>. The
  total mass may be zero (the three counts are then zero) and the \<open>min\<close> total may be zero
  while the others are not (the upper count is then infinite).
\<close>

lemma file_count_order_if_extents_ordered:
  assumes ok: "reference_ok idx df0" and nf: "df0 ''num_files'' = Some nf"
    and counts: "\<forall>x\<in>set nf. count_ok x"
    and ext: "\<forall>i<length idx. 0 \<le> bin_extent_min idx ! i \<and> bin_extent_min idx ! i \<le> idx ! i"
    and t: "0 < t"
  shows "\<exists>nb fmin fave fmax. run_notebook idx df0 (Fin t) = Some nb
     \<and> newfs_df nb ''num_files_min'' = Some fmin
     \<and> newfs_df nb ''num_files_ave'' = Some fave
     \<and> newfs_df nb ''num_files_max'' = Some fmax
     \<and> length fmin = length idx \<and> length fave = length idx \<and> length fmax = length idx
     \<and> (\<forall>i<length idx. fle (fmin ! i) (fave ! i) \<and> fle (fave ! i) (fmax ! i))
     \<and> (\<exists>dmin dmax dave emin emax eave.
           new_mass_dist nb ''dmass_min'' = Some dmin \<and> new_mass_dist nb ''dmass_max'' = Some dmax
         \<and> new_mass_dist nb ''dmass_ave'' = Some dave
         \<and> reference_df nb ''bin_extent_min'' = Some emin
         \<and> reference_df nb ''bin_extent_max'' = Some emax
         \<and> reference_df nb ''bin_extent_ave'' = Some eave
         \<and> fmin = series_fillna (series_div dmin emax)
         \<and> fmax = series_fillna (series_div dmax (map py_max1 emin))
         \<and> fave = series_fillna (series_div dave eave))"
proof -
  define n where "n = length idx"
  define c where "c = (\<lambda>i. count_val (nf ! i))"
  define a where "a = (\<lambda>i. real_of_int (bin_extent_min idx ! i))"
  define b where "b = (\<lambda>i. real_of_int (idx ! i))"
  define s1 where "s1 = sum_list (map (\<lambda>i. c i * a i) [0..<n])"
  define s2 where "s2 = sum_list (map (\<lambda>i. c i * b i) [0..<n])"
  define s3 where "s3 = sum_list (map (\<lambda>i. c i * ((a i + b i) / 2)) [0..<n])"
  from ok nf have len: "length nf = n"
    by (simp add: reference_ok_def INODE_TYPES_def n_def)
  have cnn: "0 \<le> c i" if "i < n" for i
    using counts that len by (simp add: c_def count_val_nonneg)
  have ab: "0 \<le> a i" "a i \<le> b i" "b i = 0 \<or> 1 \<le> b i" if "i < n" for i
  proof -
    from ext that have e: "0 \<le> bin_extent_min idx ! i" "bin_extent_min idx ! i \<le> idx ! i"
      by (simp_all add: n_def)
    show "0 \<le> a i" "a i \<le> b i" using e by (simp_all add: a_def b_def)
    from e have "idx ! i = 0 \<or> 1 \<le> idx ! i" by arith
    then show "b i = 0 \<or> 1 \<le> b i" by (auto simp add: b_def)
  qed
  have bnn: "0 \<le> b i" "0 \<le> (a i + b i) / 2" if "i < n" for i
    using ab[OF that] by simp_all
  have nn: "\<forall>i\<in>set [0..<n]. 0 \<le> c i * a i" "\<forall>i\<in>set [0..<n]. 0 \<le> c i * b i"
      "\<forall>i\<in>set [0..<n]. 0 \<le> c i * ((a i + b i) / 2)"
    using cnn ab(1) bnn by (auto intro!: mult_nonneg_nonneg)
  have s1nn: "0 \<le> s1" unfolding s1_def using nn(1) by (intro sum_list_nonneg) auto
  have s13: "s1 \<le> s3" unfolding s1_def s3_def
    using cnn ab by (intro sum_list_mono mult_left_mono) auto
  have s32: "s3 \<le> s2" unfolding s2_def s3_def
    using cnn ab by (intro sum_list_mono mult_left_mono) auto
  from run_notebook_counts[OF ok nf counts, of "Fin t"]
  obtain nb where nb: "run_notebook idx df0 (Fin t) = Some nb"
    "newfs_df nb ''num_files_min'' = Some (map (\<lambda>i. fillna
           (fdiv (fmul (fdiv (Fin (c i * a i)) (Fin s2)) (Fin t)) (Fin (b i)))) [0..<n])"
    "newfs_df nb ''num_files_max'' = Some (map (\<lambda>i. fillna
           (fdiv (fmul (fdiv (Fin (c i * b i)) (Fin s1)) (Fin t)) (py_max1 (Fin (a i))))) [0..<n])"
    "newfs_df nb ''num_files_ave'' = Some (map (\<lambda>i. fillna
           (fdiv (fmul (fdiv (Fin (c i * ((a i + b i) / 2))) (Fin s3)) (Fin t))
                 (Fin ((a i + b i) / 2)))) [0..<n])"
    unfolding n_def c_def a_def b_def s1_def s2_def s3_def by blast
  define fmin where "fmin = map (\<lambda>i. fillna
           (fdiv (fmul (fdiv (Fin (c i * a i)) (Fin s2)) (Fin t)) (Fin (b i)))) [0..<n]"
  define fmax where "fmax = map (\<lambda>i. fillna
           (fdiv (fmul (fdiv (Fin (c i * b i)) (Fin s1)) (Fin t)) (py_max1 (Fin (a i))))) [0..<n]"
  define fave where "fave = map (\<lambda>i. fillna
           (fdiv (fmul (fdiv (Fin (c i * ((a i + b i) / 2))) (Fin s3)) (Fin t))
                 (Fin ((a i + b i) / 2)))) [0..<n]"
  have lens: "length fmin = length idx" "length fave = length idx" "length fmax = length idx"
    by (simp_all add: fmin_def fave_def fmax_def n_def)
  have order: "fle (fmin ! i) (fave ! i) \<and> fle (fave ! i) (fmax ! i)" if "i < n" for i
  proof -
    have nth: "fmin ! i = fillna (fdiv (fmul (fdiv (Fin (c i * a i)) (Fin s2)) (Fin t)) (Fin (b i)))"
      "fmax ! i = fillna (fdiv (fmul (fdiv (Fin (c i * b i)) (Fin s1)) (Fin t)) (py_max1 (Fin (a i))))"
      "fave ! i = fillna (fdiv (fmul (fdiv (Fin (c i * ((a i + b i) / 2))) (Fin s3)) (Fin t))
                 (Fin ((a i + b i) / 2)))"
      using that by (simp_all add: fmin_def fmax_def fave_def
                       del: fdiv.simps fmul.simps fillna.simps)
    show ?thesis
      unfolding nth
    proof (rule bound_order_bin)
      show "0 \<le> c i" "0 \<le> a i" "a i \<le> b i" "b i = 0 \<or> 1 \<le> b i" using cnn ab that by auto
      show "0 < t" by (rule t)
      show "c i * a i \<le> s1" unfolding s1_def
        using elem_le_sum_list[of "[0..<n]" "\<lambda>i. c i * a i" i] nn(1) that by simp
      show "c i * b i \<le> s2" unfolding s2_def
        using elem_le_sum_list[of "[0..<n]" "\<lambda>i. c i * b i" i] nn(2) that by simp
      show "c i * ((a i + b i) / 2) \<le> s3" unfolding s3_def
        using elem_le_sum_list[of "[0..<n]" "\<lambda>i. c i * ((a i + b i) / 2)" i] nn(3) that by simp
      show "0 \<le> s1" "s1 \<le> s3" "s3 \<le> s2" by (rule s1nn s13 s32)+
    qed
  qed
  note nb' = nb[folded fmin_def fmax_def fave_def]
  from newfs_files_from_new_mass[OF ok nf nb(1)]
  obtain dmin dmax dave emin emax eave where d:
      "new_mass_dist nb ''dmass_min'' = Some dmin" "new_mass_dist nb ''dmass_max'' = Some dmax"
      "new_mass_dist nb ''dmass_ave'' = Some dave"
      "reference_df nb ''bin_extent_min'' = Some emin"
      "reference_df nb ''bin_extent_max'' = Some emax"
      "reference_df nb ''bin_extent_ave'' = Some eave"
      "newfs_df nb ''num_files_min'' = Some (series_fillna (series_div dmin emax))"
      "newfs_df nb ''num_files_max'' = Some (series_fillna (series_div dmax (map py_max1 emin)))"
      "newfs_df nb ''num_files_ave'' = Some (series_fillna (series_div dave eave))"
    by blast
  have eqs: "fmin = series_fillna (series_div dmin emax)"
      "fmax = series_fillna (series_div dmax (map py_max1 emin))"
      "fave = series_fillna (series_div dave eave)"
    using nb'(2-4) d(7-9) by simp_all
  have src: "\<exists>dmin dmax dave emin emax eave.
           new_mass_dist nb ''dmass_min'' = Some dmin \<and> new_mass_dist nb ''dmass_max'' = Some dmax
         \<and> new_mass_dist nb ''dmass_ave'' = Some dave
         \<and> reference_df nb ''bin_extent_min'' = Some emin
         \<and> reference_df nb ''bin_extent_max'' = Some emax
         \<and> reference_df nb ''bin_extent_ave'' = Some eave
         \<and> fmin = series_fillna (series_div dmin emax)
         \<and> fmax = series_fillna (series_div dmax (map py_max1 emin))
         \<and> fave = series_fillna (series_div dave eave)"
    using d(1-6) eqs by blast
  have ord: "\<forall>i<length idx. fle (fmin ! i) (fave ! i) \<and> fle (fave ! i) (fmax ! i)"
    using order by (simp add: n_def)
  show ?thesis
    by (rule exI[of _ nb], rule exI[of _ fmin], rule exI[of _ fave], rule exI[of _ fmax])
       (intro conjI nb'(1,2,4,3) lens ord src)
qed

text \<open>
  Claim C2. The projected file counts of a bin are to be in the order
  \<open>num_files_min <= num_files_ave <= num_files_max\<close>, and \<open>invalid_minmax_df\<close> is the
  notebook's own check of the order of a \<open>min\<close> and a \<open>max\<close> column. On the boundaries
  \<open>0, 1, 2, 4\<close> the notebook breaks that order. The lower extent of the second bin is the
  constant 2 of the array \<open>[0, 2]\<close>, above its upper extent 1: with one file in that bin
  and a target capacity of 1 the total masses are 2, 1 and 3/2, all positive, and the three
  counts of the bin come out as 2, 2/3 and 1/4. \<open>invalid_minmax_df\<close> finds one row out of
  order in \<open>newfs_df\<close> and one in \<open>mass_dist\<close>.
\<close>

theorem file_count_order_inverted:
  "notebook_column (run_notebook [0, 1, 2, 4]
       (example_df [Fin 0, Fin 1, Fin 0, Fin 0] [Fin 0, Fin 0, Fin 0, Fin 0]) (Fin 1))
     newfs_df ''num_files_min'' = Some [Fin 0, Fin 2, Fin 0, Fin 0]
   \<and> notebook_column (run_notebook [0, 1, 2, 4]
       (example_df [Fin 0, Fin 1, Fin 0, Fin 0] [Fin 0, Fin 0, Fin 0, Fin 0]) (Fin 1))
     newfs_df ''num_files_ave'' = Some [Fin 0, Fin (2 / 3), Fin 0, Fin 0]
   \<and> notebook_column (run_notebook [0, 1, 2, 4]
       (example_df [Fin 0, Fin 1, Fin 0, Fin 0] [Fin 0, Fin 0, Fin 0, Fin 0]) (Fin 1))
     newfs_df ''num_files_max'' = Some [Fin 0, Fin (1 / 4), Fin 0, Fin 0]
   \<and> \<not> fle (Fin 2) (Fin (2 / 3)) \<and> \<not> fle (Fin (2 / 3)) (Fin (1 / 4))
   \<and> notebook_entry (run_notebook [0, 1, 2, 4]
       (example_df [Fin 0, Fin 1, Fin 0, Fin 0] [Fin 0, Fin 0, Fin 0, Fin 0]) (Fin 1))
     mass_dist_sums ''dmass_min'' = Some (Fin 2)
   \<and> notebook_entry (run_notebook [0, 1, 2, 4]
       (example_df [Fin 0, Fin 1, Fin 0, Fin 0] [Fin 0, Fin 0, Fin 0, Fin 0]) (Fin 1))
     mass_dist_sums ''dmass_max'' = Some (Fin 1)
   \<and> notebook_entry (run_notebook [0, 1, 2, 4]
       (example_df [Fin 0, Fin 1, Fin 0, Fin 0] [Fin 0, Fin 0, Fin 0, Fin 0]) (Fin 1))
     mass_dist_sums ''dmass_ave'' = Some (Fin (3 / 2))
   \<and> (\<exists>nb. run_notebook [0, 1, 2, 4]
          (example_df [Fin 0, Fin 1, Fin 0, Fin 0] [Fin 0, Fin 0, Fin 0, Fin 0]) (Fin 1) = Some nb
        \<and> invalid_minmax_df (newfs_df nb) ''num_files'' = Some 1
        \<and> invalid_minmax_df (mass_dist nb) ''dmass'' = Some 1)"
proof -
  let ?df = "example_df [Fin 0, Fin 1, Fin 0, Fin 0] [Fin 0, Fin 0, Fin 0, Fin 0]"
  have ok: "reference_ok [0, 1, 2, 4] ?df"
    by (simp add: reference_ok_example)
  have cols: "notebook_column (run_notebook [0, 1, 2, 4] ?df (Fin 1)) newfs_df ''num_files_min''
        = Some [Fin 0, Fin 2, Fin 0, Fin 0]"
      "notebook_column (run_notebook [0, 1, 2, 4] ?df (Fin 1)) newfs_df ''num_files_ave''
        = Some [Fin 0, Fin (2 / 3), Fin 0, Fin 0]"
      "notebook_column (run_notebook [0, 1, 2, 4] ?df (Fin 1)) newfs_df ''num_files_max''
        = Some [Fin 0, Fin (1 / 4), Fin 0, Fin 0]"
      "notebook_column (run_notebook [0, 1, 2, 4] ?df (Fin 1)) mass_dist ''dmass_min''
        = Some [Fin 0, Fin 2, Fin 0, Fin 0]"
      "notebook_column (run_notebook [0, 1, 2, 4] ?df (Fin 1)) mass_dist ''dmass_max''
        = Some [Fin 0, Fin 1, Fin 0, Fin 0]"
    unfolding notebook_column_eqs[OF ok example_df_files]
    by (simp_all add: series_defs)
  have sums: "notebook_entry (run_notebook [0, 1, 2, 4] ?df (Fin 1)) mass_dist_sums ''dmass_min''
        = Some (Fin 2)"
      "notebook_entry (run_notebook [0, 1, 2, 4] ?df (Fin 1)) mass_dist_sums ''dmass_max''
        = Some (Fin 1)"
      "notebook_entry (run_notebook [0, 1, 2, 4] ?df (Fin 1)) mass_dist_sums ''dmass_ave''
        = Some (Fin (3 / 2))"
    unfolding notebook_entry_eqs[OF ok example_df_files]
    by (simp_all add: series_defs)
  from run_notebook_some[OF ok example_df_files, of "Fin 1"]
  obtain nb where nb: "run_notebook [0, 1, 2, 4] ?df (Fin 1) = Some nb" by blast
  have chk: "invalid_minmax_df (newfs_df nb) ''num_files'' = Some 1"
      "invalid_minmax_df (mass_dist nb) ''dmass'' = Some 1"
    using cols unfolding nb by (simp_all add: notebook_column_def invalid_minmax_df_def)
  have ex: "\<exists>nb. run_notebook [0, 1, 2, 4] ?df (Fin 1) = Some nb
        \<and> invalid_minmax_df (newfs_df nb) ''num_files'' = Some 1
        \<and> invalid_minmax_df (mass_dist nb) ''dmass'' = Some 1"
    using nb chk by blast
  have ord: "\<not> fle (Fin 2) (Fin (2 / 3))" "\<not> fle (Fin (2 / 3)) (Fin (1 / 4))" by simp_all
  show ?thesis
    by (intro conjI cols(1-3) ord sums ex)
qed

section \<open>The sums of the probability columns\<close>

text \<open>
  Claim C3, as amended. With non-negative or missing counts, the \<open>ave\<close> column of
  \<open>prob_dist\<close> sums to 1 whenever the total \<open>ave\<close> mass is not zero. The \<open>min\<close> column is
  divided by the \<open>max\<close> total and so sums to the ratio of the \<open>min\<close> total to the \<open>max\<close>
  total, and the \<open>max\<close> column sums to the inverse ratio.
\<close>

theorem prob_dist_column_sums:
  assumes ok: "reference_ok idx df0" and nf: "df0 ''num_files'' = Some nf"
    and counts: "\<forall>x\<in>set nf. count_ok x"
  shows "\<exists>nb s1 s2 s3 p1 p2 p3. run_notebook idx df0 T = Some nb
     \<and> mass_dist_sums nb ''dmass_min'' = Some (Fin s1)
     \<and> mass_dist_sums nb ''dmass_max'' = Some (Fin s2)
     \<and> mass_dist_sums nb ''dmass_ave'' = Some (Fin s3)
     \<and> prob_dist nb ''dmass_min'' = Some p1
     \<and> prob_dist nb ''dmass_max'' = Some p2
     \<and> prob_dist nb ''dmass_ave'' = Some p3
     \<and> (s3 \<noteq> 0 \<longrightarrow> fsum p3 = Fin 1)
     \<and> (s2 \<noteq> 0 \<longrightarrow> fsum p1 = Fin (s1 / s2))
     \<and> (s1 \<noteq> 0 \<longrightarrow> fsum p2 = Fin (s2 / s1))"
proof -
  define n where "n = length idx"
  define c where "c = (\<lambda>i. count_val (nf ! i))"
  define a where "a = (\<lambda>i. real_of_int (bin_extent_min idx ! i))"
  define b where "b = (\<lambda>i. real_of_int (idx ! i))"
  define s1 where "s1 = sum_list (map (\<lambda>i. c i * a i) [0..<n])"
  define s2 where "s2 = sum_list (map (\<lambda>i. c i * b i) [0..<n])"
  define s3 where "s3 = sum_list (map (\<lambda>i. c i * ((a i + b i) / 2)) [0..<n])"
  define p1 where "p1 = map (\<lambda>i. fdiv (Fin (c i * a i)) (Fin s2)) [0..<n]"
  define p2 where "p2 = map (\<lambda>i. fdiv (Fin (c i * b i)) (Fin s1)) [0..<n]"
  define p3 where "p3 = map (\<lambda>i. fdiv (Fin (c i * ((a i + b i) / 2))) (Fin s3)) [0..<n]"
  from run_notebook_counts[OF ok nf counts, of T]
  obtain nb where nb: "run_notebook idx df0 T = Some nb"
    "mass_dist_sums nb = Map.empty(''dmass_min'' \<mapsto> Fin s1, ''dmass_max'' \<mapsto> Fin s2,
                                       ''dmass_ave'' \<mapsto> Fin s3)"
    "prob_dist nb = Map.empty(''dmass_min'' \<mapsto> p1, ''dmass_max'' \<mapsto> p2, ''dmass_ave'' \<mapsto> p3)"
    unfolding n_def c_def a_def b_def s1_def s2_def s3_def p1_def p2_def p3_def by blast
  have q3: "fsum p3 = Fin 1" if "s3 \<noteq> 0"
    unfolding p3_def fsum_scaled[OF that] using that by (simp add: s3_def)
  have q1: "fsum p1 = Fin (s1 / s2)" if "s2 \<noteq> 0"
    unfolding p1_def fsum_scaled[OF that] by (simp add: s1_def)
  have q2: "fsum p2 = Fin (s2 / s1)" if "s1 \<noteq> 0"
    unfolding p2_def fsum_scaled[OF that] by (simp add: s2_def)
  have look: "mass_dist_sums nb ''dmass_min'' = Some (Fin s1)"
     "mass_dist_sums nb ''dmass_max'' = Some (Fin s2)"
     "mass_dist_sums nb ''dmass_ave'' = Some (Fin s3)"
     "prob_dist nb ''dmass_min'' = Some p1"
     "prob_dist nb ''dmass_max'' = Some p2"
     "prob_dist nb ''dmass_ave'' = Some p3"
    unfolding nb(2,3) by simp_all
  show ?thesis
    using nb(1) look q1 q2 q3 by blast
qed

theorem prob_dist_column_sums_witness:
  "reference_ok [1, 2, 4] (example_df [Fin 0, Fin 0, Fin 1] [Fin 1, Fin 1, Fin 1])
   \<and> count_ok (Fin 0) \<and> count_ok (Fin 1)
   \<and> (\<exists>nb s3 p3. run_notebook [1, 2, 4] (example_df [Fin 0, Fin 0, Fin 1] [Fin 1, Fin 1, Fin 1])
          (Fin 1) = Some nb
        \<and> mass_dist_sums nb ''dmass_ave'' = Some (Fin s3)
        \<and> prob_dist nb ''dmass_ave'' = Some p3 \<and> (s3 = 0 \<or> fsum p3 = Fin 1))
   \<and> notebook_entry (run_notebook [1, 2, 4]
          (example_df [Fin 0, Fin 0, Fin 1] [Fin 1, Fin 1, Fin 1]) (Fin 1))
        mass_dist_sums ''dmass_ave'' = Some (Fin (7 / 2))
   \<and> notebook_column (run_notebook [1, 2, 4]
          (example_df [Fin 0, Fin 0, Fin 1] [Fin 1, Fin 1, Fin 1]) (Fin 1))
        prob_dist ''dmass_ave'' = Some [Fin 0, Fin 0, Fin 1]"
proof -
  have ok: "reference_ok [1, 2, 4] (example_df [Fin 0, Fin 0, Fin 1] [Fin 1, Fin 1, Fin 1])"
    by (simp add: reference_ok_example)
  have counts: "\<forall>x\<in>set [Fin 0, Fin 0, Fin 1]. count_ok x"
    by (simp add: count_ok_def)
  have ex: "\<exists>nb s3 p3. run_notebook [1, 2, 4] (example_df [Fin 0, Fin 0, Fin 1] [Fin 1, Fin 1, Fin 1])
          (Fin 1) = Some nb
        \<and> mass_dist_sums nb ''dmass_ave'' = Some (Fin s3)
        \<and> prob_dist nb ''dmass_ave'' = Some p3 \<and> (s3 = 0 \<or> fsum p3 = Fin 1)"
    using prob_dist_column_sums[OF ok example_df_files counts, of "Fin 1"] by blast
  have vals: "notebook_entry (run_notebook [1, 2, 4]
          (example_df [Fin 0, Fin 0, Fin 1] [Fin 1, Fin 1, Fin 1]) (Fin 1))
        mass_dist_sums ''dmass_ave'' = Some (Fin (7 / 2))"
     "notebook_column (run_notebook [1, 2, 4]
          (example_df [Fin 0, Fin 0, Fin 1] [Fin 1, Fin 1, Fin 1]) (Fin 1))
        prob_dist ''dmass_ave'' = Some [Fin 0, Fin 0, Fin 1]"
    unfolding notebook_column_eqs[OF ok example_df_files] notebook_entry_eqs[OF ok example_df_files]
    by (simp_all add: series_defs)
  show ?thesis using ok ex vals by (simp add: count_ok_def)
qed

text \<open>
  The claim as stated fails for the \<open>min\<close> and \<open>max\<close> columns: with one file in the bin
  \<open>(2, 4]\<close> the \<open>min\<close> column sums to 3/4 and the \<open>max\<close> column to 4/3.
\<close>

theorem prob_dist_column_sums_counterexample:
  "notebook_column (run_notebook [1, 2, 4]
          (example_df [Fin 0, Fin 0, Fin 1] [Fin 1, Fin 1, Fin 1]) (Fin 1))
        prob_dist ''dmass_min'' = Some [Fin 0, Fin 0, Fin (3 / 4)]
   \<and> fsum [Fin 0, Fin 0, Fin (3 / 4)] = Fin (3 / 4)
   \<and> notebook_column (run_notebook [1, 2, 4]
          (example_df [Fin 0, Fin 0, Fin 1] [Fin 1, Fin 1, Fin 1]) (Fin 1))
        prob_dist ''dmass_max'' = Some [Fin 0, Fin 0, Fin (4 / 3)]
   \<and> fsum [Fin 0, Fin 0, Fin (4 / 3)] = Fin (4 / 3)
   \<and> notebook_entry (run_notebook [1, 2, 4]
          (example_df [Fin 0, Fin 0, Fin 1] [Fin 1, Fin 1, Fin 1]) (Fin 1))
        mass_dist_sums ''dmass_min'' = Some (Fin 3)
   \<and> Fin (3 / 4) \<noteq> Fin 1 \<and> Fin (4 / 3) \<noteq> Fin 1"
proof -
  have ok: "reference_ok [1, 2, 4] (example_df [Fin 0, Fin 0, Fin 1] [Fin 1, Fin 1, Fin 1])"
    by (simp add: reference_ok_example)
  show ?thesis
    unfolding notebook_column_eqs[OF ok example_df_files] notebook_entry_eqs[OF ok example_df_files]
    by (simp add: series_defs)
qed

section \<open>Rescaling to the reference mass\<close>

text \<open>
  Claim C4, as amended. When the target capacity is the total \<open>ave\<close> mass of the
  reference histogram, and that total is positive, \<open>num_files_ave\<close> gives back the reference
  file count (0 for a missing one) in every bin whose average extent is not zero. In a bin
  whose average extent is zero the projected count is 0, whatever the reference count. The
  equality is exact in the exact arithmetic of \<open>fmul\<close> and \<open>fdiv\<close>; the floating-point
  tolerance of the claim is what the rounding of the doubles takes.
\<close>

theorem rescale_to_reference_mass:
  assumes ok: "reference_ok idx df0" and nf: "df0 ''num_files'' = Some nf"
    and counts: "\<forall>x\<in>set nf. count_ok x"
    and total: "notebook_entry (run_notebook idx df0 T0) mass_dist_sums ''dmass_ave'' = Some (Fin s)"
    and pos: "0 < s"
  shows "\<exists>nb fave eave. run_notebook idx df0 (Fin s) = Some nb
     \<and> mass_dist_sums nb ''dmass_ave'' = Some (Fin s)
     \<and> newfs_df nb ''num_files_ave'' = Some fave
     \<and> reference_df nb ''bin_extent_ave'' = Some eave
     \<and> length fave = length idx \<and> length eave = length idx
     \<and> (\<forall>i<length idx. fave ! i = (if eave ! i = Fin 0 then Fin 0 else fillna (nf ! i)))"
proof -
  define n where "n = length idx"
  define c where "c = (\<lambda>i. count_val (nf ! i))"
  define a where "a = (\<lambda>i. real_of_int (bin_extent_min idx ! i))"
  define b where "b = (\<lambda>i. real_of_int (idx ! i))"
  define s3 where "s3 = sum_list (map (\<lambda>i. c i * ((a i + b i) / 2)) [0..<n])"
  from ok nf have len: "2 \<le> length idx" "length nf = n"
    by (simp_all add: reference_ok_def INODE_TYPES_def n_def)
  have lmin: "length (bin_extent_min idx) = n"
    using len by (simp add: length_bin_extent_min n_def)
  from run_notebook_counts[OF ok nf counts, of T0]
  have "notebook_entry (run_notebook idx df0 T0) mass_dist_sums ''dmass_ave'' = Some (Fin s3)"
    unfolding n_def c_def a_def b_def s3_def by (auto simp add: notebook_entry_def)
  with total have s: "s3 = s" by simp
  define fave where "fave = map (\<lambda>i. fillna
           (fdiv (fmul (fdiv (Fin (c i * ((a i + b i) / 2))) (Fin s3)) (Fin s))
                 (Fin ((a i + b i) / 2)))) [0..<n]"
  define eave where "eave = scalar_div (series_add (map fin_int (bin_extent_min idx))
                              (map fin_int idx)) (Fin 2)"
  from run_notebook_counts[OF ok nf counts, of "Fin s"]
  obtain nb where nb: "run_notebook idx df0 (Fin s) = Some nb"
    "mass_dist_sums nb ''dmass_ave'' = Some (Fin s3)"
    "newfs_df nb ''num_files_ave'' = Some fave"
    unfolding n_def c_def a_def b_def s3_def fave_def by auto
  from run_notebook_some[OF ok nf, of "Fin s"] nb(1)
  have ref: "reference_df nb ''bin_extent_ave'' = Some eave"
    unfolding eave_def by auto
  have lens: "length fave = length idx" "length eave = length idx"
    using lmin by (simp_all add: fave_def eave_def n_def scalar_div_def series_add_def)
  have bins: "fave ! i = (if eave ! i = Fin 0 then Fin 0 else fillna (nf ! i))" if "i < n" for i
  proof -
    have e: "eave ! i = Fin ((a i + b i) / 2)"
      using that lmin
      by (simp add: eave_def scalar_div_def series_add_def fin_int_def a_def b_def n_def)
    have f: "fave ! i = fillna (fdiv (fmul (fdiv (Fin (c i * ((a i + b i) / 2))) (Fin s)) (Fin s))
                 (Fin ((a i + b i) / 2)))"
      using that by (simp add: fave_def s del: fdiv.simps fmul.simps fillna.simps)
    have "nf ! i \<in> set nf" using that len by simp
    then have "count_ok (nf ! i)" using counts by blast
    then have v: "fillna (nf ! i) = Fin (c i)"
      by (cases "nf ! i") (simp_all add: c_def count_ok_def count_val_def)
    from pos have "s \<noteq> 0" by simp
    then show ?thesis
      unfolding e f v roundtrip_bin[OF \<open>s \<noteq> 0\<close>] by simp
  qed
  show ?thesis
    using nb(1,3) nb(2)[unfolded s] ref lens bins unfolding n_def by blast
qed

theorem rescale_to_reference_mass_witness:
  "reference_ok [1, 2, 4] (example_df [Fin 0, Fin 2, Fin 1] [Fin 1, Fin 1, Fin 1])
   \<and> count_ok (Fin 0) \<and> count_ok (Fin 1) \<and> count_ok (Fin 2)
   \<and> notebook_entry (run_notebook [1, 2, 4]
          (example_df [Fin 0, Fin 2, Fin 1] [Fin 1, Fin 1, Fin 1]) (Fin 1))
        mass_dist_sums ''dmass_ave'' = Some (Fin (15 / 2))
   \<and> (\<exists>nb. run_notebook [1, 2, 4] (example_df [Fin 0, Fin 2, Fin 1] [Fin 1, Fin 1, Fin 1])
              (Fin (15 / 2)) = Some nb
          \<and> mass_dist_sums nb ''dmass_ave'' = Some (Fin (15 / 2)))
   \<and> notebook_column (run_notebook [1, 2, 4]
          (example_df [Fin 0, Fin 2, Fin 1] [Fin 1, Fin 1, Fin 1]) (Fin (15 / 2)))
        newfs_df ''num_files_ave'' = Some [Fin 0, Fin 2, Fin 1]"
proof -
  have ok: "reference_ok [1, 2, 4] (example_df [Fin 0, Fin 2, Fin 1] [Fin 1, Fin 1, Fin 1])"
    by (simp add: reference_ok_example)
  have counts: "\<forall>x\<in>set [Fin 0, Fin 2, Fin 1]. count_ok x"
    by (simp add: count_ok_def)
  have total: "notebook_entry (run_notebook [1, 2, 4]
          (example_df [Fin 0, Fin 2, Fin 1] [Fin 1, Fin 1, Fin 1]) (Fin 1))
        mass_dist_sums ''dmass_ave'' = Some (Fin (15 / 2))"
    unfolding notebook_entry_eqs[OF ok example_df_files]
    by (simp add: series_defs)
  have pos: "(0 :: real) < 15 / 2" by simp
  have ex: "\<exists>nb. run_notebook [1, 2, 4] (example_df [Fin 0, Fin 2, Fin 1] [Fin 1, Fin 1, Fin 1])
              (Fin (15 / 2)) = Some nb
          \<and> mass_dist_sums nb ''dmass_ave'' = Some (Fin (15 / 2))"
    using rescale_to_reference_mass[OF ok example_df_files counts total pos] by blast
  have vals: "notebook_column (run_notebook [1, 2, 4]
          (example_df [Fin 0, Fin 2, Fin 1] [Fin 1, Fin 1, Fin 1]) (Fin (15 / 2)))
        newfs_df ''num_files_ave'' = Some [Fin 0, Fin 2, Fin 1]"
    unfolding notebook_column_eqs[OF ok example_df_files]
    by (simp add: series_defs)
  show ?thesis using ok total ex vals by (simp add: count_ok_def)
qed

text \<open>
  The claim as stated fails when the first boundary is 0: the first bin then has all three
  extents 0, its files weigh nothing, and on the boundaries \<open>0, 2, 4\<close> with 5 files in it
  the projected count of that bin is 0.
\<close>

theorem rescale_to_reference_mass_counterexample:
  "notebook_entry (run_notebook [0, 2, 4]
          (example_df [Fin 5, Fin 1, Fin 0] [Fin 0, Fin 0, Fin 0]) (Fin 2))
        mass_dist_sums ''dmass_ave'' = Some (Fin 2)
   \<and> example_df [Fin 5, Fin 1, Fin 0] [Fin 0, Fin 0, Fin 0] ''num_files''
        = Some [Fin 5, Fin 1, Fin 0]
   \<and> notebook_column (run_notebook [0, 2, 4]
          (example_df [Fin 5, Fin 1, Fin 0] [Fin 0, Fin 0, Fin 0]) (Fin 2))
        newfs_df ''num_files_ave'' = Some [Fin 0, Fin 1, Fin 0]
   \<and> Fin 0 \<noteq> Fin 5"
proof -
  have ok: "reference_ok [0, 2, 4] (example_df [Fin 5, Fin 1, Fin 0] [Fin 0, Fin 0, Fin 0])"
    by (simp add: reference_ok_example)
  show ?thesis
    unfolding notebook_column_eqs[OF ok example_df_files] notebook_entry_eqs[OF ok example_df_files]
    by (simp add: series_defs example_df_files)
qed

section \<open>The bin extents\<close>

text \<open>
  What the cell computes. On two bins or more the extent columns are set and, bin by bin:
  \<open>bin_extent_max\<close> is the boundary; \<open>bin_extent_min\<close> is 0 in the first bin, the
  constant 2 in the second, and \<open>bin_extent_max\<close> of the bin before plus 1 from the third
  bin on; \<open>bin_extent_ave\<close> is the midpoint of the two. The second bin's lower extent is
  the upper extent of the first plus 1 exactly when the first boundary is 1. On one bin the
  assignment of the lower extents raises \<open>ValueError\<close>. On a table without rows the frame
  gets the two rows of the array \<open>[0, 2]\<close>, with the upper extents 0 and 1.
\<close>

lemma bin_extents_two_or_more:
  assumes len: "2 \<le> length idx"
  shows "\<exists>ref emin emax eave. reference_df_extents idx df0 = Some ref
          \<and> ref ''bin_extent_min'' = Some emin \<and> ref ''bin_extent_max'' = Some emax
          \<and> ref ''bin_extent_ave'' = Some eave
          \<and> length emin = length idx \<and> length emax = length idx \<and> length eave = length idx
          \<and> (\<forall>i<length idx. emax ! i = fin_int (idx ! i))
          \<and> emin ! 0 = Fin 0 \<and> emin ! 1 = Fin 2
          \<and> (\<forall>i<length idx. 2 \<le> i \<longrightarrow> emin ! i = fadd (emax ! (i - 1)) (Fin 1))
          \<and> (\<forall>i<length idx. eave ! i = fdiv (fadd (emin ! i) (emax ! i)) (Fin 2))
          \<and> (emin ! 1 = fadd (emax ! 0) (Fin 1) \<longleftrightarrow> idx ! 0 = 1)"
proof -
  let ?emin = "map fin_int (bin_extent_min idx)"
  let ?emax = "map fin_int idx"
  let ?eave = "scalar_div (series_add ?emin ?emax) (Fin 2)"
  have l: "length (bin_extent_min idx) = length idx"
    using len by (rule length_bin_extent_min)
  have l01: "0 < length (bin_extent_min idx)" "1 < length (bin_extent_min idx)"
    using len l by arith+
  have a: "?emin ! 0 = Fin 0" "?emin ! 1 = Fin 2"
    unfolding nth_map[OF l01(1)] nth_map[OF l01(2)] bin_extent_min_nth(1,2)[OF len]
    by (simp_all add: fin_int_def)
  have b: "\<forall>i<length idx. 2 \<le> i \<longrightarrow> ?emin ! i = fadd (?emax ! (i - 1)) (Fin 1)"
    using len l bin_extent_min_nth(3)[OF len] by (simp add: fin_int_def)
  have c: "\<forall>i<length idx. ?eave ! i = fdiv (fadd (?emin ! i) (?emax ! i)) (Fin 2)"
    using l by (simp add: scalar_div_def series_add_def)
  have l0: "0 < length idx" using len by arith
  have "(2 = real_of_int (idx ! 0) + 1) = (idx ! 0 = 1)" by linarith
  then have d: "(?emin ! 1 = fadd (?emax ! 0) (Fin 1)) = (idx ! 0 = 1)"
    unfolding nth_map[OF l01(2)] nth_map[OF l0] bin_extent_min_nth(2)[OF len]
    by (simp add: fin_int_def)
  have e: "length ?emin = length idx" "length ?emax = length idx" "length ?eave = length idx"
    using l by (simp_all add: scalar_div_def series_add_def)
  have f: "\<forall>i<length idx. ?emax ! i = fin_int (idx ! i)" by simp
  show ?thesis
    unfolding reference_df_extents_some[OF len]
    apply (rule exI[of _ "df0(''bin_extent_min'' \<mapsto> ?emin, ''bin_extent_max'' \<mapsto> ?emax,
               ''bin_extent_ave'' \<mapsto> ?eave)"])
    apply (rule exI[of _ ?emin])
    apply (rule exI[of _ ?emax])
    apply (rule exI[of _ ?eave])
    using a b c d e f apply (simp del: fadd.simps fdiv.simps)
    done
qed

lemma reference_df_extents_one_bin:
  assumes "length idx = 1"
  shows "reference_df_extents idx df0 = None"
proof -
  from assms obtain x where "idx = [x]" by (cases idx) auto
  then show ?thesis by (simp add: reference_df_extents_def bin_extent_min_def)
qed

lemma reference_df_extents_no_rows:
  "reference_df_extents [] df0 =
     Some ((\<lambda>column. map_option (\<lambda>values. [NaN, NaN]) (df0 column))(
        ''bin_extent_min'' \<mapsto> [Fin 0, Fin 2],
        ''bin_extent_max'' \<mapsto> [Fin 0, Fin 1],
        ''bin_extent_ave'' \<mapsto> [Fin 0, Fin (3 / 2)]))"
  by (simp add: reference_df_extents_def series_defs upt_rec numeral_2_eq_2)

text \<open>
  Claim C5. The lower extent of every bin after the first is to be the upper extent of the
  bin before plus 1. The cell computes that from the third bin on, and gives the second bin
  the constant 2 of the array \<open>[0, 2]\<close>. On the boundaries \<open>0, 1, 2, 4\<close> the lower extents
  are 0, 2, 2, 3: the second is not the first upper extent plus 1, which is 1, and it lies
  above the upper extent 1 of its own bin, so that \<open>invalid_minmax_df\<close> finds one row out
  of order among the extents. On the boundaries \<open>2, 4, 8, 16\<close> the second lower extent is
  again 2, where the first upper extent plus 1 is 3.
\<close>

theorem bin_extent_min_second_bin:
  "reference_df_extents [0, 1, 2, 4] Map.empty = Some (Map.empty(
        ''bin_extent_min'' \<mapsto> [Fin 0, Fin 2, Fin 2, Fin 3],
        ''bin_extent_max'' \<mapsto> [Fin 0, Fin 1, Fin 2, Fin 4],
        ''bin_extent_ave'' \<mapsto> [Fin 0, Fin (3 / 2), Fin 2, Fin (7 / 2)]))
   \<and> fadd (Fin 0) (Fin 1) = Fin 1 \<and> Fin 2 \<noteq> Fin 1 \<and> \<not> fle (Fin 2) (Fin 1)
   \<and> invalid_minmax_df (Map.empty(
        ''bin_extent_min'' \<mapsto> [Fin 0, Fin 2, Fin 2, Fin 3],
        ''bin_extent_max'' \<mapsto> [Fin 0, Fin 1, Fin 2, Fin 4],
        ''bin_extent_ave'' \<mapsto> [Fin 0, Fin (3 / 2), Fin 2, Fin (7 / 2)])) ''bin_extent'' = Some 1
   \<and> reference_df_extents [2, 4, 8, 16] Map.empty = Some (Map.empty(
        ''bin_extent_min'' \<mapsto> [Fin 0, Fin 2, Fin 5, Fin 9],
        ''bin_extent_max'' \<mapsto> [Fin 2, Fin 4, Fin 8, Fin 16],
        ''bin_extent_ave'' \<mapsto> [Fin 1, Fin 3, Fin (13 / 2), Fin (25 / 2)]))
   \<and> fadd (Fin 2) (Fin 1) = Fin 3 \<and> Fin 2 \<noteq> Fin 3"
  by (simp add: reference_df_extents_def invalid_minmax_df_def series_defs)

section \<open>The empty population\<close>

text \<open>
  A table of fewer than two bins does not reach the end of the notebook. With one bin the
  assignment of the lower extents raises \<open>ValueError\<close>. A table without rows leaves that
  cell with two rows of missing counts; its masses and their totals are 0, and the first
  division of the \<open>prob_dist\<close> cell raises \<open>ZeroDivisionError\<close> (or, when the table has
  no column \<open>num_files\<close>, the \<open>mass_dist\<close> cell raises \<open>KeyError\<close>).
\<close>

lemma run_notebook_one_bin:
  assumes "length idx = 1"
  shows "run_notebook idx df0 T = None"
  by (simp add: run_notebook_def reference_df_extents_one_bin[OF assms])

lemma no_rows_zero_division:
  assumes "df0 ''num_files'' = Some col"
  shows "\<exists>ref md sm. reference_df_extents [] df0 = Some ref
     \<and> ref ''num_files'' = Some [NaN, NaN]
     \<and> mass_dist_cell ref = Some md
     \<and> md = Map.empty(''dmass_min'' \<mapsto> [Fin 0, Fin 0], ''dmass_max'' \<mapsto> [Fin 0, Fin 0],
                        ''dmass_ave'' \<mapsto> [Fin 0, Fin 0])
     \<and> mass_dist_sums_cell md = Some sm
     \<and> sm = Map.empty(''dmass_min'' \<mapsto> Fin 0, ''dmass_max'' \<mapsto> Fin 0, ''dmass_ave'' \<mapsto> Fin 0)
     \<and> prob_dist_cell True md sm = None"
proof -
  let ?ref = "(\<lambda>column. map_option (\<lambda>values. [NaN, NaN]) (df0 column))(
        ''bin_extent_min'' \<mapsto> [Fin 0, Fin 2],
        ''bin_extent_max'' \<mapsto> [Fin 0, Fin 1],
        ''bin_extent_ave'' \<mapsto> [Fin 0, Fin (3 / 2)])"
  let ?md = "Map.empty(''dmass_min'' \<mapsto> [Fin 0, Fin 0], ''dmass_max'' \<mapsto> [Fin 0, Fin 0],
                        ''dmass_ave'' \<mapsto> [Fin 0, Fin 0 :: fval])"
  let ?sm = "Map.empty(''dmass_min'' \<mapsto> Fin 0, ''dmass_max'' \<mapsto> Fin 0, ''dmass_ave'' \<mapsto> Fin 0 :: fval)"
  have nf: "?ref ''num_files'' = Some [NaN, NaN]" using assms by simp
  have md: "mass_dist_cell ?ref = Some ?md"
    using mass_dist_cell_some[of ?ref "[NaN, NaN]" "[Fin 0, Fin 2]" "[Fin 0, Fin 1]"
        "[Fin 0, Fin (3 / 2)]"] nf
    by (simp add: series_fillna_def series_mul_def)
  have sm: "mass_dist_sums_cell ?md = Some ?sm"
    using mass_dist_sums_cell_some[of ?md "[Fin 0, Fin 0]" "[Fin 0, Fin 0]" "[Fin 0, Fin 0]"]
    by simp
  have pd: "prob_dist_cell True ?md ?sm = None"
    by (simp add: prob_dist_cell_def column_div_scalar_def REDUCTIONS_def invert_redux_def)
  show ?thesis
    using reference_df_extents_no_rows[of df0] nf md sm pd by blast
qed

lemma run_notebook_no_rows: "run_notebook [] df0 T = None"
proof (cases "df0 ''num_files''")
  case None
  then have "mass_dist_cell ((\<lambda>column. map_option (\<lambda>values. [NaN, NaN]) (df0 column))(
        ''bin_extent_min'' \<mapsto> [Fin 0, Fin 2],
        ''bin_extent_max'' \<mapsto> [Fin 0, Fin 1],
        ''bin_extent_ave'' \<mapsto> [Fin 0, Fin (3 / 2)])) = None"
    by (simp add: mass_dist_cell_def REDUCTIONS_def)
  then show ?thesis
    by (simp add: run_notebook_def reference_df_extents_no_rows)
next
  case (Some col)
  from no_rows_zero_division[of df0 col] Some obtain ref md sm where
    "reference_df_extents [] df0 = Some ref" "mass_dist_cell ref = Some md"
    "mass_dist_sums_cell md = Some sm" "prob_dist_cell True md sm = None"
    by blast
  then show ?thesis by (simp add: run_notebook_def)
qed




section \<open>The other inode types\<close>

text \<open>
  The columns of the other types in a finished run, and the two cells that make
  \<open>newfs_df\<close>: the first writes the three file columns, the second adds the columns of the
  other types and leaves the file columns as they are.
\<close>

lemma notebook_type_column_eqs:
  fixes T :: fval
  assumes ok: "reference_ok idx df0" and nf: "df0 ''num_files'' = Some nf"
    and t: "t \<in> set NON_FILE_INODE_TYPES" and rt: "df0 (''num_'' @ t) = Some rt"
  defines "e1 \<equiv> map fin_int (bin_extent_min idx)"
    and "e2 \<equiv> map fin_int idx"
  defines "e3 \<equiv> scalar_div (series_add e1 e2) (Fin 2)"
  defines "m1 \<equiv> series_fillna (series_mul nf e1)"
    and "m2 \<equiv> series_fillna (series_mul nf e2)"
    and "m3 \<equiv> series_fillna (series_mul nf e3)"
  shows "notebook_column (run_notebook idx df0 T) newfs_df (''num_'' @ t @ ''_min'')
           = Some (series_fillna (series_div (series_mul
               (series_fillna (series_div (scalar_mul (scalar_div m1 (fsum m2)) T) e2)) rt) nf))"
    and "notebook_column (run_notebook idx df0 T) newfs_df (''num_'' @ t @ ''_max'')
           = Some (series_fillna (series_div (series_mul
               (series_fillna (series_div (scalar_mul (scalar_div m2 (fsum m1)) T) (map py_max1 e1))) rt) nf))"
    and "notebook_column (run_notebook idx df0 T) newfs_df (''num_'' @ t @ ''_ave'')
           = Some (series_fillna (series_div (series_mul
               (series_fillna (series_div (scalar_mul (scalar_div m3 (fsum m3)) T) e3)) rt) nf))"
proof -
  from run_notebook_some[OF ok nf, of T]
  obtain nb where nb: "run_notebook idx df0 T = Some nb"
    and all: "\<forall>t\<in>set NON_FILE_INODE_TYPES. \<exists>rt. df0 (''num_'' @ t) = Some rt
          \<and> newfs_df nb (''num_'' @ t @ ''_min'') = Some (series_fillna (series_div (series_mul
               (series_fillna (series_div (scalar_mul (scalar_div m1 (fsum m2)) T) e2)) rt) nf))
          \<and> newfs_df nb (''num_'' @ t @ ''_max'') = Some (series_fillna (series_div (series_mul
               (series_fillna (series_div (scalar_mul (scalar_div m2 (fsum m1)) T) (map py_max1 e1))) rt) nf))
          \<and> newfs_df nb (''num_'' @ t @ ''_ave'') = Some (series_fillna (series_div (series_mul
               (series_fillna (series_div (scalar_mul (scalar_div m3 (fsum m3)) T) e3)) rt) nf))"
    unfolding e1_def e2_def e3_def m1_def m2_def m3_def by blast
  from bspec[OF all t] rt
  have "newfs_df nb (''num_'' @ t @ ''_min'') = Some (series_fillna (series_div (series_mul
               (series_fillna (series_div (scalar_mul (scalar_div m1 (fsum m2)) T) e2)) rt) nf))"
    and "newfs_df nb (''num_'' @ t @ ''_max'') = Some (series_fillna (series_div (series_mul
               (series_fillna (series_div (scalar_mul (scalar_div m2 (fsum m1)) T) (map py_max1 e1))) rt) nf))"
    and "newfs_df nb (''num_'' @ t @ ''_ave'') = Some (series_fillna (series_div (series_mul
               (series_fillna (series_div (scalar_mul (scalar_div m3 (fsum m3)) T) e3)) rt) nf))"
    by auto
  then show "notebook_column (run_notebook idx df0 T) newfs_df (''num_'' @ t @ ''_min'')
           = Some (series_fillna (series_div (series_mul
               (series_fillna (series_div (scalar_mul (scalar_div m1 (fsum m2)) T) e2)) rt) nf))"
    and "notebook_column (run_notebook idx df0 T) newfs_df (''num_'' @ t @ ''_max'')
           = Some (series_fillna (series_div (series_mul
               (series_fillna (series_div (scalar_mul (scalar_div m2 (fsum m1)) T) (map py_max1 e1))) rt) nf))"
    and "notebook_column (run_notebook idx df0 T) newfs_df (''num_'' @ t @ ''_ave'')
           = Some (series_fillna (series_div (series_mul
               (series_fillna (series_div (scalar_mul (scalar_div m3 (fsum m3)) T) e3)) rt) nf))"
    unfolding nb by (simp_all add: notebook_column_def)
qed

lemma run_notebook_newfs_cells:
  assumes "run_notebook idx df0 T = Some nb"
  shows "\<exists>nfs0. newfs_files_cell (reference_df nb) (new_mass_dist nb) = Some nfs0
     \<and> newfs_types_cell (reference_df nb) nfs0 = Some (newfs_df nb)"
  using assms by (auto simp add: run_notebook_def split: Option.bind_splits)

text \<open>
  Claim C7. The cell of the other types starts from the file columns that the cell before
  it has computed from \<open>new_mass_dist\<close> and the extents, and keeps them. For every type
  other than files, every reduction and every bin, the projected count of the type is the
  projected file count times the ratio of the reference count of the type to the reference
  file count, with \<open>nan\<close> replaced by 0; in a bin whose reference file count is zero the
  projected file count and the projected count of the type are both exactly 0.
\<close>

theorem other_types_follow_reference_ratio:
  assumes ok: "reference_ok idx df0" and nf: "df0 ''num_files'' = Some nf"
  shows "\<exists>nb nfs0. run_notebook idx df0 T = Some nb
     \<and> newfs_files_cell (reference_df nb) (new_mass_dist nb) = Some nfs0
     \<and> newfs_types_cell (reference_df nb) nfs0 = Some (newfs_df nb)
     \<and> (\<exists>dmin dmax dave emin emax eave.
           new_mass_dist nb ''dmass_min'' = Some dmin \<and> new_mass_dist nb ''dmass_max'' = Some dmax
         \<and> new_mass_dist nb ''dmass_ave'' = Some dave
         \<and> reference_df nb ''bin_extent_min'' = Some emin
         \<and> reference_df nb ''bin_extent_max'' = Some emax
         \<and> reference_df nb ''bin_extent_ave'' = Some eave
         \<and> nfs0 ''num_files_min'' = Some (series_fillna (series_div dmin emax))
         \<and> nfs0 ''num_files_max'' = Some (series_fillna (series_div dmax (map py_max1 emin)))
         \<and> nfs0 ''num_files_ave'' = Some (series_fillna (series_div dave eave)))
     \<and> (\<forall>t\<in>set NON_FILE_INODE_TYPES. \<forall>r\<in>set REDUCTIONS. \<exists>pf rt pt.
           nfs0 (''num_files_'' @ r) = Some pf
         \<and> newfs_df nb (''num_files_'' @ r) = Some pf
         \<and> df0 (''num_'' @ t) = Some rt
         \<and> newfs_df nb (''num_'' @ t @ ''_'' @ r) = Some pt
         \<and> length pf = length idx \<and> length pt = length idx
         \<and> (\<forall>i<length idx. pt ! i = fillna (fmul (pf ! i) (fdiv (rt ! i) (nf ! i)))
               \<and> (nf ! i = Fin 0 \<longrightarrow> pf ! i = Fin 0 \<and> pt ! i = Fin 0)))"
proof -
  define n where "n = length idx"
  define e1 where "e1 = map fin_int (bin_extent_min idx)"
  define e2 where "e2 = map fin_int idx"
  define e3 where "e3 = scalar_div (series_add e1 e2) (Fin 2)"
  define m1 where "m1 = series_fillna (series_mul nf e1)"
  define m2 where "m2 = series_fillna (series_mul nf e2)"
  define m3 where "m3 = series_fillna (series_mul nf e3)"
  define d1 where "d1 = scalar_mul (scalar_div m1 (fsum m2)) T"
  define d2 where "d2 = scalar_mul (scalar_div m2 (fsum m1)) T"
  define d3 where "d3 = scalar_mul (scalar_div m3 (fsum m3)) T"
  define f1 where "f1 = series_fillna (series_div d1 e2)"
  define f2 where "f2 = series_fillna (series_div d2 (map py_max1 e1))"
  define f3 where "f3 = series_fillna (series_div d3 e3)"
  from ok nf have len: "2 \<le> length idx" "length nf = n"
    by (simp_all add: reference_ok_def INODE_TYPES_def n_def)
  have le: "length e1 = n" "length e2 = n" "length e3 = n"
    using len by (simp_all add: e1_def e2_def e3_def n_def length_bin_extent_min scalar_div_def
        series_add_def)
  have lf: "length f1 = n" "length f2 = n" "length f3 = n"
    using len le
    by (simp_all add: f1_def f2_def f3_def d1_def d2_def d3_def m1_def m2_def m3_def
          series_fillna_def series_div_def scalar_mul_def scalar_div_def series_mul_def)
  have fz: "f1 ! i = Fin 0 \<and> f2 ! i = Fin 0 \<and> f3 ! i = Fin 0" if "i < n" "nf ! i = Fin 0" for i
  proof -
    from that(1) have i: "i < length idx" by (simp add: n_def)
    from extent_columns_finite[OF len(1) i] obtain x1 x2 x3
      where x: "e1 ! i = Fin x1" "e2 ! i = Fin x2" "e3 ! i = Fin x3"
      unfolding e1_def e2_def e3_def by blast
    have "f1 ! i = Fin 0" unfolding f1_def d1_def m1_def
      using that le len by (intro files_zero_bin[where x = x1] x) simp_all
    moreover have "f2 ! i = Fin 0" unfolding f2_def d2_def m2_def
      using that le len by (intro files_zero_bin[where x = x2] x) simp_all
    moreover have "f3 ! i = Fin 0" unfolding f3_def d3_def m3_def
      using that le len by (intro files_zero_bin[where x = x3] x) simp_all
    ultimately show ?thesis by simp
  qed
  from run_notebook_some[OF ok nf, of T]
  obtain nb where nb: "run_notebook idx df0 T = Some nb"
    "reference_df nb = df0(''bin_extent_min'' \<mapsto> e1, ''bin_extent_max'' \<mapsto> e2,
                            ''bin_extent_ave'' \<mapsto> e3)"
    "new_mass_dist nb = Map.empty(''dmass_min'' \<mapsto> d1, ''dmass_max'' \<mapsto> d2, ''dmass_ave'' \<mapsto> d3)"
    "newfs_df nb ''num_files_min'' = Some f1"
    "newfs_df nb ''num_files_max'' = Some f2"
    "newfs_df nb ''num_files_ave'' = Some f3"
    "\<forall>t\<in>set NON_FILE_INODE_TYPES. \<exists>rt. df0 (''num_'' @ t) = Some rt
          \<and> newfs_df nb (''num_'' @ t @ ''_min'') = Some (series_fillna (series_div (series_mul f1 rt) nf))
          \<and> newfs_df nb (''num_'' @ t @ ''_max'') = Some (series_fillna (series_div (series_mul f2 rt) nf))
          \<and> newfs_df nb (''num_'' @ t @ ''_ave'') = Some (series_fillna (series_div (series_mul f3 rt) nf))"
    unfolding e1_def e2_def e3_def m1_def m2_def m3_def d1_def d2_def d3_def f1_def f2_def f3_def
    by blast
  from run_notebook_newfs_cells[OF nb(1)] obtain nfs0
    where cells: "newfs_files_cell (reference_df nb) (new_mass_dist nb) = Some nfs0"
      "newfs_types_cell (reference_df nb) nfs0 = Some (newfs_df nb)"
    by blast
  have look: "new_mass_dist nb ''dmass_min'' = Some d1" "new_mass_dist nb ''dmass_max'' = Some d2"
      "new_mass_dist nb ''dmass_ave'' = Some d3"
      "reference_df nb ''bin_extent_min'' = Some e1" "reference_df nb ''bin_extent_max'' = Some e2"
      "reference_df nb ''bin_extent_ave'' = Some e3"
    unfolding nb(2,3) by simp_all
  from newfs_files_cell_some[OF look] cells(1)
  have nfs0: "nfs0 = Map.empty(''num_files_min'' \<mapsto> f1, ''num_files_max'' \<mapsto> f2,
                               ''num_files_ave'' \<mapsto> f3)"
    by (simp add: f1_def f2_def f3_def)
  have files0: "nfs0 ''num_files_min'' = Some f1" "nfs0 ''num_files_max'' = Some f2"
      "nfs0 ''num_files_ave'' = Some f3"
    unfolding nfs0 by simp_all
  have src: "\<exists>dmin dmax dave emin emax eave.
           new_mass_dist nb ''dmass_min'' = Some dmin \<and> new_mass_dist nb ''dmass_max'' = Some dmax
         \<and> new_mass_dist nb ''dmass_ave'' = Some dave
         \<and> reference_df nb ''bin_extent_min'' = Some emin
         \<and> reference_df nb ''bin_extent_max'' = Some emax
         \<and> reference_df nb ''bin_extent_ave'' = Some eave
         \<and> nfs0 ''num_files_min'' = Some (series_fillna (series_div dmin emax))
         \<and> nfs0 ''num_files_max'' = Some (series_fillna (series_div dmax (map py_max1 emin)))
         \<and> nfs0 ''num_files_ave'' = Some (series_fillna (series_div dave eave))"
    using look files0 unfolding f1_def f2_def f3_def by blast
  have one: "\<exists>pf rt pt.
           nfs0 (''num_files_'' @ r) = Some pf
         \<and> newfs_df nb (''num_files_'' @ r) = Some pf
         \<and> df0 (''num_'' @ t) = Some rt
         \<and> newfs_df nb (''num_'' @ t @ ''_'' @ r) = Some pt
         \<and> length pf = length idx \<and> length pt = length idx
         \<and> (\<forall>i<length idx. pt ! i = fillna (fmul (pf ! i) (fdiv (rt ! i) (nf ! i)))
               \<and> (nf ! i = Fin 0 \<longrightarrow> pf ! i = Fin 0 \<and> pt ! i = Fin 0))"
    if t: "t \<in> set NON_FILE_INODE_TYPES" and r: "r \<in> set REDUCTIONS" for t r
  proof -
    from bspec[OF nb(7) t] obtain rt where rt: "df0 (''num_'' @ t) = Some rt"
      "newfs_df nb (''num_'' @ t @ ''_min'') = Some (series_fillna (series_div (series_mul f1 rt) nf))"
      "newfs_df nb (''num_'' @ t @ ''_max'') = Some (series_fillna (series_div (series_mul f2 rt) nf))"
      "newfs_df nb (''num_'' @ t @ ''_ave'') = Some (series_fillna (series_div (series_mul f3 rt) nf))"
      by blast
    have lrt: "length rt = n"
      using reference_ok_length[OF ok non_file_inode_type[OF t] rt(1)] by (simp add: n_def)
    have gen: "length pf = length idx
        \<and> length (series_fillna (series_div (series_mul pf rt) nf)) = length idx
        \<and> (\<forall>i<length idx. series_fillna (series_div (series_mul pf rt) nf) ! i
                 = fillna (fmul (pf ! i) (fdiv (rt ! i) (nf ! i)))
               \<and> (nf ! i = Fin 0 \<longrightarrow> pf ! i = Fin 0
                     \<and> series_fillna (series_div (series_mul pf rt) nf) ! i = Fin 0))"
      if pl: "length pf = n" and pz: "\<And>i. i < n \<Longrightarrow> nf ! i = Fin 0 \<Longrightarrow> pf ! i = Fin 0" for pf
    proof (intro conjI allI impI)
      show "length pf = length idx" using pl by (simp add: n_def)
      show "length (series_fillna (series_div (series_mul pf rt) nf)) = length idx"
        using pl lrt len by (simp add: series_fillna_def series_div_def series_mul_def n_def)
    next
      fix i assume i: "i < length idx"
      then have b: "i < length pf" "i < length rt" "i < length nf"
        using pl lrt len by (simp_all add: n_def)
      show "series_fillna (series_div (series_mul pf rt) nf) ! i
                 = fillna (fmul (pf ! i) (fdiv (rt ! i) (nf ! i)))"
        by (rule type_count_bin[OF b])
      assume z: "nf ! i = Fin 0"
      show pf0: "pf ! i = Fin 0" using pz[of i] i z by (simp add: n_def)
      show "series_fillna (series_div (series_mul pf rt) nf) ! i = Fin 0"
        unfolding type_count_bin[OF b] fmul_fdiv_assoc[symmetric] pf0 z type_zero ..
    qed
    from r consider "r = ''min''" | "r = ''max''" | "r = ''ave''"
      by (auto simp add: REDUCTIONS_def)
    then show ?thesis
    proof cases
      case 1
      show ?thesis unfolding 1 using files0(1) nb(4) rt(1,2) gen[of f1] lf fz by auto
    next
      case 2
      show ?thesis unfolding 2 using files0(2) nb(5) rt(1,3) gen[of f2] lf fz by auto
    next
      case 3
      show ?thesis unfolding 3 using files0(3) nb(6) rt(1,4) gen[of f3] lf fz by auto
    qed
  qed
  have types: "\<forall>t\<in>set NON_FILE_INODE_TYPES. \<forall>r\<in>set REDUCTIONS. \<exists>pf rt pt.
           nfs0 (''num_files_'' @ r) = Some pf
         \<and> newfs_df nb (''num_files_'' @ r) = Some pf
         \<and> df0 (''num_'' @ t) = Some rt
         \<and> newfs_df nb (''num_'' @ t @ ''_'' @ r) = Some pt
         \<and> length pf = length idx \<and> length pt = length idx
         \<and> (\<forall>i<length idx. pt ! i = fillna (fmul (pf ! i) (fdiv (rt ! i) (nf ! i)))
               \<and> (nf ! i = Fin 0 \<longrightarrow> pf ! i = Fin 0 \<and> pt ! i = Fin 0))"
    using one by blast
  show ?thesis
    by (rule exI[of _ nb], rule exI[of _ nfs0]) (intro conjI nb(1) cells src types)
qed

theorem other_types_follow_reference_ratio_witness:
  "reference_ok [1, 2, 4] (example_df [Fin 0, Fin 2, Fin 1] [Fin 1, Fin 1, Fin 3])
   \<and> example_df [Fin 0, Fin 2, Fin 1] [Fin 1, Fin 1, Fin 3] ''num_files''
        = Some [Fin 0, Fin 2, Fin 1]
   \<and> example_df [Fin 0, Fin 2, Fin 1] [Fin 1, Fin 1, Fin 3] ''num_dirs''
        = Some [Fin 1, Fin 1, Fin 3]
   \<and> (\<exists>nb nfs0 pf pt. run_notebook [1, 2, 4] (example_df [Fin 0, Fin 2, Fin 1] [Fin 1, Fin 1, Fin 3])
                     (Fin 1) = Some nb
          \<and> newfs_types_cell (reference_df nb) nfs0 = Some (newfs_df nb)
          \<and> nfs0 ''num_files_ave'' = Some pf
          \<and> newfs_df nb ''num_files_ave'' = Some pf
          \<and> newfs_df nb ''num_dirs_ave'' = Some pt
          \<and> pt ! 0 = Fin 0
          \<and> pt ! 2 = fillna (fmul (pf ! 2) (fdiv (Fin 3) (Fin 1))))
   \<and> notebook_column (run_notebook [1, 2, 4]
          (example_df [Fin 0, Fin 2, Fin 1] [Fin 1, Fin 1, Fin 3]) (Fin 1))
        newfs_df ''num_files_ave'' = Some [Fin 0, Fin (4 / 15), Fin (2 / 15)]
   \<and> notebook_column (run_notebook [1, 2, 4]
          (example_df [Fin 0, Fin 2, Fin 1] [Fin 1, Fin 1, Fin 3]) (Fin 1))
        newfs_df ''num_dirs_ave'' = Some [Fin 0, Fin (2 / 15), Fin (2 / 5)]
   \<and> notebook_column (run_notebook [1, 2, 4]
          (example_df [Fin 0, Fin 2, Fin 1] [Fin 1, Fin 1, Fin 3]) (Fin 1))
        newfs_df ''num_dirs_min'' = Some [Fin 0, Fin (1 / 8), Fin (9 / 32)]
   \<and> notebook_column (run_notebook [1, 2, 4]
          (example_df [Fin 0, Fin 2, Fin 1] [Fin 1, Fin 1, Fin 3]) (Fin 1))
        newfs_df ''num_dirs_max'' = Some [Fin 0, Fin (1 / 7), Fin (4 / 7)]
   \<and> notebook_column (run_notebook [1, 2, 4]
          (example_df [Fin 0, Fin 2, Fin 1] [Fin 1, Fin 1, Fin 3]) (Fin 1))
        newfs_df ''num_socks_ave'' = Some [Fin 0, Fin 0, Fin 0]"
proof -
  let ?df = "example_df [Fin 0, Fin 2, Fin 1] [Fin 1, Fin 1, Fin 3]"
  have ok: "reference_ok [1, 2, 4] ?df"
    by (simp add: reference_ok_example)
  have dirs: "?df ''num_dirs'' = Some [Fin 1, Fin 1, Fin 3]"
    by (simp add: example_df_def)
  have dirs': "?df (''num_'' @ ''dirs'') = Some [Fin 1, Fin 1, Fin 3]"
    by (simp add: example_df_def)
  have socks': "?df (''num_'' @ ''socks'') = Some [Fin 0, Fin 0, Fin 0]"
    by (simp add: example_df_def)
  have t: "''dirs'' \<in> set NON_FILE_INODE_TYPES" and t': "''socks'' \<in> set NON_FILE_INODE_TYPES"
    by (simp_all add: NON_FILE_INODE_TYPES_def INODE_TYPES_def)
  have r: "''ave'' \<in> set REDUCTIONS"
    by (simp add: REDUCTIONS_def)
  from other_types_follow_reference_ratio[OF ok example_df_files, of "Fin 1"]
  obtain nb nfs0 where nb: "run_notebook [1, 2, 4] ?df (Fin 1) = Some nb"
    and cell: "newfs_types_cell (reference_df nb) nfs0 = Some (newfs_df nb)"
    and all: "\<forall>t\<in>set NON_FILE_INODE_TYPES. \<forall>r\<in>set REDUCTIONS. \<exists>pf rt pt.
           nfs0 (''num_files_'' @ r) = Some pf
         \<and> newfs_df nb (''num_files_'' @ r) = Some pf
         \<and> ?df (''num_'' @ t) = Some rt
         \<and> newfs_df nb (''num_'' @ t @ ''_'' @ r) = Some pt
         \<and> length pf = length [1, 2, 4 :: int] \<and> length pt = length [1, 2, 4 :: int]
         \<and> (\<forall>i<length [1, 2, 4 :: int].
               pt ! i = fillna (fmul (pf ! i) (fdiv (rt ! i) ([Fin 0, Fin 2, Fin 1] ! i)))
               \<and> ([Fin 0, Fin 2, Fin 1] ! i = Fin 0 \<longrightarrow> pf ! i = Fin 0 \<and> pt ! i = Fin 0))"
    by blast
  from bspec[OF bspec[OF all t] r] obtain pf rt pt where
      p: "nfs0 (''num_files_'' @ ''ave'') = Some pf"
         "newfs_df nb (''num_files_'' @ ''ave'') = Some pf"
         "?df (''num_'' @ ''dirs'') = Some rt"
         "newfs_df nb (''num_'' @ ''dirs'' @ ''_'' @ ''ave'') = Some pt"
      and bins: "\<forall>i<length [1, 2, 4 :: int].
               pt ! i = fillna (fmul (pf ! i) (fdiv (rt ! i) ([Fin 0, Fin 2, Fin 1] ! i)))
               \<and> ([Fin 0, Fin 2, Fin 1] ! i = Fin 0 \<longrightarrow> pf ! i = Fin 0 \<and> pt ! i = Fin 0)"
    by blast
  from p(3) dirs' have rt: "rt = [Fin 1, Fin 1, Fin 3]" by simp
  have i0: "0 < length [1, 2, 4 :: int]" and i2: "2 < length [1, 2, 4 :: int]" by simp_all
  have "pf ! 0 = Fin 0 \<and> pt ! 0 = Fin 0"
    using conjunct2[OF bins[rule_format, OF i0]] by simp
  then have pt0: "pt ! 0 = Fin 0" ..
  have "pt ! 2 = fillna (fmul (pf ! 2) (fdiv (rt ! 2) ([Fin 0, Fin 2, Fin 1] ! 2)))"
    using conjunct1[OF bins[rule_format, OF i2]] .
  then have pt2: "pt ! 2 = fillna (fmul (pf ! 2) (fdiv (Fin 3) (Fin 1)))"
    unfolding rt by simp
  have ex: "\<exists>nb nfs0 pf pt. run_notebook [1, 2, 4] ?df (Fin 1) = Some nb
          \<and> newfs_types_cell (reference_df nb) nfs0 = Some (newfs_df nb)
          \<and> nfs0 ''num_files_ave'' = Some pf
          \<and> newfs_df nb ''num_files_ave'' = Some pf
          \<and> newfs_df nb ''num_dirs_ave'' = Some pt
          \<and> pt ! 0 = Fin 0
          \<and> pt ! 2 = fillna (fmul (pf ! 2) (fdiv (Fin 3) (Fin 1)))"
    apply (rule exI[of _ nb], rule exI[of _ nfs0], rule exI[of _ pf], rule exI[of _ pt])
    using nb cell p(1,2,4) pt0 pt2 by simp
  have files: "notebook_column (run_notebook [1, 2, 4] ?df (Fin 1))
        newfs_df ''num_files_ave'' = Some [Fin 0, Fin (4 / 15), Fin (2 / 15)]"
    unfolding notebook_column_eqs[OF ok example_df_files]
    by (simp add: series_defs)
  have dcols: "notebook_column (run_notebook [1, 2, 4] ?df (Fin 1))
        newfs_df (''num_'' @ ''dirs'' @ ''_ave'') = Some [Fin 0, Fin (2 / 15), Fin (2 / 5)]"
      "notebook_column (run_notebook [1, 2, 4] ?df (Fin 1))
        newfs_df (''num_'' @ ''dirs'' @ ''_min'') = Some [Fin 0, Fin (1 / 8), Fin (9 / 32)]"
      "notebook_column (run_notebook [1, 2, 4] ?df (Fin 1))
        newfs_df (''num_'' @ ''dirs'' @ ''_max'') = Some [Fin 0, Fin (1 / 7), Fin (4 / 7)]"
    unfolding notebook_type_column_eqs[OF ok example_df_files t dirs']
    by (simp_all add: series_defs)
  have scol: "notebook_column (run_notebook [1, 2, 4] ?df (Fin 1))
        newfs_df (''num_'' @ ''socks'' @ ''_ave'') = Some [Fin 0, Fin 0, Fin 0]"
    unfolding notebook_type_column_eqs[OF ok example_df_files t' socks']
    by (simp add: series_defs)
  show ?thesis
    using ok dirs ex files dcols scol by (simp add: example_df_files)
qed

section \<open>The inode mass\<close>

text \<open>
  Claim C8. \<open>calculate_inode_mass\<close> returns the sum over the bins of the bin totals, a
  total that is \<open>nan\<close> counting as 0. The total of a bin is the file count times
  \<open>LUSTRE_BYTES_PER_INODE\<close> (4096) plus, for each other type, the larger of the two
  products \<open>count * extent\<close> and \<open>count * LUSTRE_BYTES_PER_INODE\<close> of the whole bin.
\<close>

theorem calculate_inode_mass_per_bin:
  assumes "\<forall>t\<in>set INODE_TYPES.
             input_df (''num_'' @ t @ minmax_suffix minmax) = Some (cnt t) \<and> length (cnt t) = n"
    and "ref (''bin_extent_'' @ redux) = Some e" and "length e = n"
  shows "calculate_inode_mass ref input_df redux minmax =
     Some (fsum (map (\<lambda>i. fillna (foldl fadd (fmul (cnt ''files'' ! i) LUSTRE_BYTES_PER_INODE)
              (map (\<lambda>t. fmax2 (fmul (cnt t ! i) (e ! i)) (fmul (cnt t ! i) LUSTRE_BYTES_PER_INODE))
                   NON_FILE_INODE_TYPES))) [0..<n]))
     \<and> LUSTRE_BYTES_PER_INODE = Fin 4096"
  using calculate_inode_mass_eq[of input_df minmax cnt n ref redux e] assms
    LUSTRE_BYTES_PER_INODE_eq by simp

theorem calculate_inode_mass_per_bin_witness:
  "example_df [Fin 1, Fin 2] [Fin 3, Fin 1] ''num_files'' = Some [Fin 1, Fin 2]
   \<and> example_df [Fin 1, Fin 2] [Fin 3, Fin 1] ''num_dirs'' = Some [Fin 3, Fin 1]
   \<and> fmax2 (fmul (Fin 3) (Fin 1)) (fmul (Fin 3) LUSTRE_BYTES_PER_INODE) = Fin 12288
   \<and> fmax2 (fmul (Fin 1) (Fin 8192)) (fmul (Fin 1) LUSTRE_BYTES_PER_INODE) = Fin 8192
   \<and> calculate_inode_mass (Map.empty(''bin_extent_ave'' \<mapsto> [Fin 1, Fin 8192]))
        (example_df [Fin 1, Fin 2] [Fin 3, Fin 1]) ''ave'' None = Some (Fin 32768)"
proof -
  let ?df = "example_df [Fin 1, Fin 2] [Fin 3, Fin 1]"
  let ?ref = "Map.empty(''bin_extent_ave'' \<mapsto> [Fin 1, Fin 8192])"
  let ?cnt = "\<lambda>t. the (?df (''num_'' @ t))"
  have h1: "\<forall>t\<in>set INODE_TYPES.
      ?df (''num_'' @ t @ minmax_suffix None) = Some (?cnt t) \<and> length (?cnt t) = 2"
    by (simp add: INODE_TYPES_def example_df_def minmax_suffix_def)
  have h2: "?ref (''bin_extent_'' @ ''ave'') = Some [Fin 1, Fin 8192]" by simp
  have h3: "length [Fin 1, Fin 8192] = 2" by simp
  have u: "[0..<2] = [0, 1]" by (simp add: upt_rec)
  from calculate_inode_mass_per_bin[of ?df None ?cnt 2 ?ref "''ave''" "[Fin 1, Fin 8192]"] h1 h2 h3
  have "calculate_inode_mass ?ref ?df ''ave'' None = Some (Fin 32768)"
    unfolding u
    by (simp add: NON_FILE_INODE_TYPES_def INODE_TYPES_def example_df_def
          LUSTRE_BYTES_PER_INODE_eq)
  then show ?thesis
    by (simp add: example_df_def LUSTRE_BYTES_PER_INODE_eq)
qed

section \<open>The endurance formula\<close>

subsection \<open>Rounding to the nearest double\<close>

text \<open>
  The exponent search finds the binade of a number of the normal range, and rounding such
  a number moves it by at most the fraction \<open>2 ^ -53\<close> of its magnitude.
\<close>

lemma pow2_powr: "pow2 e = 2 powr (real_of_int e)"
proof (cases "0 \<le> e")
  case True
  then have "2 powr (real_of_int e) = 2 powr (real (nat e))" by simp
  also have "\<dots> = 2 ^ nat e" by (simp add: powr_realpow)
  finally show ?thesis using True by (simp add: pow2_def)
next
  case False
  then have "2 powr (real_of_int e) = 2 powr (- real (nat (- e)))" by simp
  also have "\<dots> = 1 / 2 ^ nat (- e)" by (simp add: powr_minus powr_realpow divide_inverse)
  finally show ?thesis using False by (simp add: pow2_def)
qed

lemma pow2_pos: "0 < pow2 e"
  by (simp add: pow2_powr)

lemma pow2_less_iff: "pow2 a < pow2 b \<longleftrightarrow> a < b"
  by (simp add: pow2_powr)

lemma pow2_le_iff: "pow2 a \<le> pow2 b \<longleftrightarrow> a \<le> b"
  by (simp add: pow2_powr)

lemma pow2_add: "pow2 (a + b) = pow2 a * pow2 b"
  by (simp add: pow2_powr powr_add)

lemma pow2_Suc: "pow2 (e + 1) = 2 * pow2 e"
proof -
  have "pow2 1 = 2" by (simp add: pow2_def)
  then show ?thesis using pow2_add[of e 1] by simp
qed

lemma exponent_from_eq:
  assumes "e0 \<le> e" and "e \<le> e0 + int n" and "pow2 e \<le> a \<or> e = e0" and "a < pow2 (e + 1)"
  shows "exponent_from n e0 a = e"
  using assms
proof (induction n arbitrary: e0)
  case 0
  then show ?case by simp
next
  case (Suc n)
  show ?case
  proof (cases "a < pow2 (e0 + 1)")
    case True
    have "e = e0"
    proof (rule ccontr)
      assume "e \<noteq> e0"
      then have "pow2 e \<le> a" and "e0 + 1 \<le> e" using Suc.prems by auto
      then have "pow2 (e0 + 1) \<le> a" using pow2_le_iff[of "e0 + 1" e] by linarith
      then show False using True by simp
    qed
    then show ?thesis using True by simp
  next
    case False
    then have le: "pow2 (e0 + 1) \<le> a" by simp
    then have "pow2 (e0 + 1) < pow2 (e + 1)" using Suc.prems(4) by linarith
    then have "e0 + 1 \<le> e" using pow2_less_iff[of "e0 + 1" "e + 1"] by simp
    moreover have "e \<le> (e0 + 1) + int n" using Suc.prems(2) by simp
    moreover have "pow2 e \<le> a \<or> e = e0 + 1" using Suc.prems(3) \<open>e0 + 1 \<le> e\<close> by auto
    ultimately have "exponent_from n (e0 + 1) a = e"
      using Suc.IH[of "e0 + 1"] Suc.prems(4) by blast
    then show ?thesis using False by simp
  qed
qed

lemma exponent64_eq:
  assumes "- 1022 \<le> e" and "e \<le> 1023" and "pow2 e \<le> \<bar>x\<bar>" and "\<bar>x\<bar> < pow2 (e + 1)"
  shows "exponent64 x = e"
  unfolding exponent64_def
  using assms by (intro exponent_from_eq) simp_all

lemma round64_eq:
  assumes "- 1022 \<le> e" and "e \<le> 1023" and "pow2 e \<le> \<bar>x\<bar>" and "\<bar>x\<bar> < pow2 (e + 1)"
    and "round_even (x / pow2 (e - 52)) = m"
    and "\<bar>of_int m * pow2 (e - 52)\<bar> < pow2 1024"
  shows "round64 x = Fin (of_int m * pow2 (e - 52))"
  using assms(5,6) unfolding round64_def exponent64_eq[OF assms(1-4)]
  by (simp add: Let_def)

lemma round_even_error: "\<bar>real_of_int (round_even q) - q\<bar> \<le> 1 / 2"
proof -
  have "real_of_int \<lfloor>q\<rfloor> \<le> q" "q < real_of_int \<lfloor>q\<rfloor> + 1" by linarith+
  then show ?thesis by (simp add: round_even_def Let_def)
qed

lemma exponent64_normal:
  assumes "pow2 (- 1022) \<le> \<bar>x\<bar>" and "\<bar>x\<bar> < pow2 1024"
  shows "- 1022 \<le> exponent64 x \<and> exponent64 x \<le> 1023
     \<and> pow2 (exponent64 x) \<le> \<bar>x\<bar> \<and> \<bar>x\<bar> < pow2 (exponent64 x + 1)"
proof -
  define e where "e = \<lfloor>log 2 \<bar>x\<bar>\<rfloor>"
  have pos: "0 < \<bar>x\<bar>" using assms(1) pow2_pos[of "- 1022"] by linarith
  have "real_of_int e \<le> log 2 \<bar>x\<bar>" unfolding e_def by linarith
  then have "2 powr (real_of_int e) \<le> 2 powr (log 2 \<bar>x\<bar>)" by simp
  then have lo: "pow2 e \<le> \<bar>x\<bar>" using pos by (simp add: pow2_powr)
  have "log 2 \<bar>x\<bar> < real_of_int (e + 1)" unfolding e_def by linarith
  then have "2 powr (log 2 \<bar>x\<bar>) < 2 powr (real_of_int (e + 1))" by simp
  then have hi: "\<bar>x\<bar> < pow2 (e + 1)" using pos by (simp add: pow2_powr)
  have "pow2 (- 1022) < pow2 (e + 1)" using assms(1) hi by linarith
  then have e1: "- 1022 \<le> e" using pow2_less_iff[of "- 1022" "e + 1"] by simp
  have "pow2 e < pow2 1024" using assms(2) lo by linarith
  then have e2: "e \<le> 1023" using pow2_less_iff[of e 1024] by simp
  have "exponent64 x = e" by (rule exponent64_eq[OF e1 e2 lo hi])
  then show ?thesis using e1 e2 lo hi by simp
qed

lemma round64_normal:
  assumes "pow2 (- 1022) \<le> \<bar>x\<bar>" and "\<bar>x\<bar> \<le> pow2 1023"
  shows "\<exists>r. round64 x = Fin r \<and> \<bar>r - x\<bar> \<le> \<bar>x\<bar> / 2 ^ 53"
proof -
  define e where "e = exponent64 x"
  define ulp where "ulp = pow2 (e - 52)"
  define r where "r = real_of_int (round_even (x / ulp)) * ulp"
  have "pow2 1023 < pow2 1024" by (simp add: pow2_less_iff)
  then have "\<bar>x\<bar> < pow2 1024" using assms(2) by linarith
  from exponent64_normal[OF assms(1) this]
  have lo: "pow2 e \<le> \<bar>x\<bar>" by (simp add: e_def)
  have ulp_pos: "0 < ulp" by (simp add: ulp_def pow2_pos)
  have "pow2 e = pow2 (e - 52) * pow2 52" using pow2_add[of "e - 52" 52] by simp
  also have "pow2 52 = 2 ^ 52" by (simp add: pow2_def)
  finally have ulp_e: "ulp = pow2 e / 2 ^ 52" by (simp add: ulp_def)
  have "r - x = (real_of_int (round_even (x / ulp)) - x / ulp) * ulp"
    using ulp_pos by (simp add: r_def field_simps)
  then have "\<bar>r - x\<bar> = \<bar>real_of_int (round_even (x / ulp)) - x / ulp\<bar> * ulp"
    using ulp_pos by (simp add: abs_mult)
  also have "\<dots> \<le> (1 / 2) * ulp"
    using round_even_error[of "x / ulp"] ulp_pos by (intro mult_right_mono) simp_all
  also have "\<dots> = pow2 e / 2 ^ 53" by (simp add: ulp_e)
  also have "\<dots> \<le> \<bar>x\<bar> / 2 ^ 53" using lo by (simp add: divide_right_mono)
  finally have err: "\<bar>r - x\<bar> \<le> \<bar>x\<bar> / 2 ^ 53" .
  have "\<bar>r\<bar> \<le> \<bar>x\<bar> + \<bar>r - x\<bar>" by simp
  also have "\<dots> \<le> \<bar>x\<bar> + \<bar>x\<bar> / 2 ^ 53" using err by simp
  also have "\<dots> \<le> pow2 1023 + pow2 1023 / 2 ^ 53"
    using assms(2) by (intro add_mono divide_right_mono) simp_all
  also have "\<dots> < 2 * pow2 1023" using pow2_pos[of 1023] by simp
  also have "\<dots> = pow2 1024" using pow2_Suc[of 1023] by simp
  finally have "\<bar>r\<bar> < pow2 1024" .
  then have "round64 x = Fin r"
    by (simp add: round64_def Let_def r_def ulp_def e_def)
  then show ?thesis using err by blast
qed

lemma round64_relative:
  assumes arg: "\<bar>x - t\<bar> \<le> eps * \<bar>t\<bar>" and eps: "0 \<le> eps" "eps \<le> 1 / 2"
    and safe: "pow2 (- 1021) \<le> \<bar>t\<bar>" "\<bar>t\<bar> \<le> pow2 1022"
  shows "\<exists>r. round64 x = Fin r \<and> \<bar>r - t\<bar> \<le> ((1 + eps) * (1 + 1 / 2 ^ 53) - 1) * \<bar>t\<bar>"
proof -
  have up: "\<bar>x\<bar> \<le> (1 + eps) * \<bar>t\<bar>"
  proof -
    have "\<bar>x\<bar> \<le> \<bar>t\<bar> + \<bar>x - t\<bar>" by simp
    then show ?thesis using arg by (simp add: algebra_simps)
  qed
  have "(1 + eps) * \<bar>t\<bar> \<le> 2 * \<bar>t\<bar>" using eps by (intro mult_right_mono) simp_all
  also have "\<dots> \<le> 2 * pow2 1022" using safe(2) by simp
  also have "\<dots> = pow2 1023" using pow2_Suc[of 1022] by simp
  finally have hi: "\<bar>x\<bar> \<le> pow2 1023" using up by linarith
  have "eps * \<bar>t\<bar> \<le> (1 / 2) * \<bar>t\<bar>" using eps by (intro mult_right_mono) simp_all
  then have "\<bar>x - t\<bar> \<le> \<bar>t\<bar> / 2" using arg by simp
  moreover have "\<bar>t\<bar> \<le> \<bar>x\<bar> + \<bar>x - t\<bar>" by simp
  ultimately have "\<bar>t\<bar> / 2 \<le> \<bar>x\<bar>" by simp
  moreover have "pow2 (- 1021) = 2 * pow2 (- 1022)" using pow2_Suc[of "- 1022"] by simp
  ultimately have lo: "pow2 (- 1022) \<le> \<bar>x\<bar>" using safe(1) by simp
  from round64_normal[OF lo hi] obtain r where r: "round64 x = Fin r" "\<bar>r - x\<bar> \<le> \<bar>x\<bar> / 2 ^ 53"
    by blast
  have "\<bar>x\<bar> / 2 ^ 53 \<le> (1 + eps) * \<bar>t\<bar> / 2 ^ 53" using up by (simp add: divide_right_mono)
  then have "\<bar>r - x\<bar> \<le> (1 + eps) * \<bar>t\<bar> / 2 ^ 53" using r(2) by linarith
  moreover have "\<bar>r - t\<bar> \<le> \<bar>r - x\<bar> + \<bar>x - t\<bar>" by simp
  ultimately have "\<bar>r - t\<bar> \<le> (1 + eps) * \<bar>t\<bar> / 2 ^ 53 + eps * \<bar>t\<bar>" using arg by linarith
  also have "\<dots> = ((1 + eps) * (1 + 1 / 2 ^ 53) - 1) * \<bar>t\<bar>" by (simp add: algebra_simps)
  finally show ?thesis using r(1) by blast
qed

text \<open>
  One operation on an operand that carries a relative error: the error of the result is
  that of the operand compounded with one rounding.
\<close>

lemma dmul_relative:
  assumes "\<bar>y - e\<bar> \<le> ((1 + 1 / 2 ^ 53) ^ k - 1) * \<bar>e\<bar>" and "k \<le> 5" and "in_normal_range (e * c)"
  shows "\<exists>r. dmul (Fin y) (Fin c) = Fin r
     \<and> \<bar>r - e * c\<bar> \<le> ((1 + 1 / 2 ^ 53) ^ Suc k - 1) * \<bar>e * c\<bar>"
proof -
  define eps :: real where "eps = (1 + 1 / 2 ^ 53) ^ k - 1"
  have e0: "0 \<le> eps" unfolding eps_def by simp
  have "(1 + 1 / 2 ^ 53 :: real) ^ k \<le> (1 + 1 / 2 ^ 53) ^ 5"
    using assms(2) by (intro power_increasing) simp_all
  also have "\<dots> \<le> 3 / 2" by (simp add: power_divide)
  finally have e1: "eps \<le> 1 / 2" unfolding eps_def by simp
  have "\<bar>y * c - e * c\<bar> = \<bar>y - e\<bar> * \<bar>c\<bar>" by (simp add: abs_mult left_diff_distrib[symmetric])
  also have "\<dots> \<le> (eps * \<bar>e\<bar>) * \<bar>c\<bar>"
    using assms(1) unfolding eps_def by (intro mult_right_mono) simp_all
  finally have arg: "\<bar>y * c - e * c\<bar> \<le> eps * \<bar>e * c\<bar>" by (simp add: abs_mult mult.assoc)
  from round64_relative[OF arg e0 e1] assms(3)
  obtain r where r: "round64 (y * c) = Fin r"
      "\<bar>r - e * c\<bar> \<le> ((1 + eps) * (1 + 1 / 2 ^ 53) - 1) * \<bar>e * c\<bar>"
    unfolding in_normal_range_def by blast
  have coef: "(1 + eps) * (1 + 1 / 2 ^ 53) - 1 = (1 + 1 / 2 ^ 53) ^ Suc k - 1"
    unfolding eps_def by (simp add: algebra_simps)
  have "dmul (Fin y) (Fin c) = Fin r" using r(1) by (simp add: dmul_def)
  then show ?thesis using r(2) unfolding coef by blast
qed

lemma ddiv_relative:
  assumes "\<bar>y - e\<bar> \<le> ((1 + 1 / 2 ^ 53) ^ k - 1) * \<bar>e\<bar>" and "k \<le> 5" and "in_normal_range (e / b)"
  shows "\<exists>r. ddiv (Fin y) (Fin b) = Fin r
     \<and> \<bar>r - e / b\<bar> \<le> ((1 + 1 / 2 ^ 53) ^ Suc k - 1) * \<bar>e / b\<bar>"
proof -
  have b: "b \<noteq> 0"
  proof
    assume "b = 0"
    then have "pow2 (- 1021) \<le> 0" using assms(3) by (simp add: in_normal_range_def)
    then show False using pow2_pos[of "- 1021"] by linarith
  qed
  have "ddiv (Fin y) (Fin b) = dmul (Fin y) (Fin (1 / b))"
    using b by (simp add: ddiv_def dmul_def)
  moreover have "in_normal_range (e * (1 / b))" using assms(3) by simp
  ultimately show ?thesis
    using dmul_relative[OF assms(1,2), of "1 / b"] by simp
qed

subsection \<open>The scenario of the specification\<close>

text \<open>
  The literal \<open>0.05\<close> is not a double: it is read as the double next to it, which is a
  little larger. The products and the quotient of the scenario, one rounding after the
  other.
\<close>

lemma double_0_05: "round64 0.05 = Fin (3602879701896397 / 72057594037927936)"
  using round64_eq[of "- 5" "0.05" 7205759403792794]
  by (simp add: pow2_def round_even_def)

lemma product_times_fswpd: "dmul (Fin 3) (Fin (3602879701896397 / 72057594037927936)) = Fin (1351079888211149 / 9007199254740992)"
  unfolding dmul_def
  using round64_eq[of "- 3" "3 * (3602879701896397 / 72057594037927936)" 5404319552844596]
  by (simp add: pow2_def round_even_def)

lemma product_times_waf: "dmul (Fin (1351079888211149 / 9007199254740992)) (Fin 2.5) = Fin (6755399441055745 / 18014398509481984)"
  unfolding dmul_def
  using round64_eq[of "- 2" "(1351079888211149 / 9007199254740992) * (5 / 2)" 6755399441055745]
  by (simp add: pow2_def round_even_def)

lemma product_times_1: "dmul (Fin (6755399441055745 / 18014398509481984)) (Fin 1) = Fin (6755399441055745 / 18014398509481984)"
  unfolding dmul_def
  using round64_eq[of "- 2" "(6755399441055745 / 18014398509481984) * 1" 6755399441055745]
  by (simp add: pow2_def round_even_def)

lemma product_times_1000: "dmul (Fin (6755399441055745 / 18014398509481984)) (Fin 1000) = Fin (6597069766656001 / 17592186044416)"
  unfolding dmul_def
  using round64_eq[of "8" "(6755399441055745 / 18014398509481984) * 1000" 6597069766656001]
  by (simp add: pow2_def round_even_def)

lemma product_over_4000: "ddiv (Fin (6597069766656001 / 17592186044416)) (Fin 4000) = Fin (6755399441055745 / 72057594037927936)"
  unfolding ddiv_def
  using round64_eq[of "- 4" "(6597069766656001 / 17592186044416) / 4000" 6755399441055745]
  by (simp add: pow2_def round_even_def)

lemma product_times_10: "dmul (Fin (6755399441055745 / 18014398509481984)) (Fin 10) = Fin (8444249301319681 / 2251799813685248)"
  unfolding dmul_def
  using round64_eq[of "1" "(6755399441055745 / 18014398509481984) * 10" 8444249301319681]
  by (simp add: pow2_def round_even_def)

lemma product_times_100: "dmul (Fin (8444249301319681 / 2251799813685248)) (Fin 100) = Fin (6597069766656001 / 17592186044416)"
  unfolding dmul_def
  using round64_eq[of "8" "(8444249301319681 / 2251799813685248) * 100" 6597069766656001]
  by (simp add: pow2_def round_even_def)

lemma bigc_times_r: "dmul (Fin 1) (Fin 1) = Fin 1"
  unfolding dmul_def
  using round64_eq[of "0" "1 * 1" 4503599627370496]
  by (simp add: pow2_def round_even_def)

lemma bigc_times_n: "dmul (Fin 1) (Fin 40) = Fin 40"
  unfolding dmul_def
  using round64_eq[of "5" "1 * 40" 5629499534213120]
  by (simp add: pow2_def round_even_def)

lemma bigc_times_c: "dmul (Fin 40) (Fin 100) = Fin 4000"
  unfolding dmul_def
  using round64_eq[of "11" "40 * 100" 8796093022208000]
  by (simp add: pow2_def round_even_def)

lemma dwpd_scenario:
  "DWPD_NEW (Fin 3) (round64 0.05) (Fin 2.5) (Fin 1) (Fin 1) (Fin 1000) (Fin 4000)
     = Fin (0.09375 + 1 / 2 ^ 56)"
  unfolding DWPD_NEW_def double_0_05 product_times_fswpd product_times_waf product_times_1 product_times_1000
    product_over_4000
  by simp

lemma dwpd_scenario_other_factors:
  "DWPD_NEW (Fin 3) (round64 0.05) (Fin 2.5) (Fin 1) (Fin 10) (Fin 100) (Fin 4000)
     = Fin (0.09375 + 1 / 2 ^ 56)"
  unfolding DWPD_NEW_def double_0_05 product_times_fswpd product_times_waf product_times_1 product_times_10
    product_times_100 product_over_4000
  by simp

lemma bigc_scenario:
  "fst (PARAM_BIGC_NEW (Some (Fin 1)) (Some (Fin 40)) (Some (Fin 100)) (Some (Fin 1))
          (Some (Fin 1)) (Fin 3) (Fin 4)) = Fin 4000"
  by (simp add: PARAM_BIGC_NEW_def bigc_times_r bigc_times_n bigc_times_c)

lemma dwpd_relative_error:
  assumes r1: "in_normal_range (ssi * fswpd)"
    and r2: "in_normal_range (ssi * fswpd * waf)"
    and r3: "in_normal_range (ssi * fswpd * waf * r)"
    and r4: "in_normal_range (ssi * fswpd * waf * r * n)"
    and r5: "in_normal_range (ssi * fswpd * waf * r * n * c)"
    and r6: "in_normal_range (ssi * fswpd * waf * r * n * c / bigc)"
  shows "\<exists>d. DWPD_NEW (Fin ssi) (Fin fswpd) (Fin waf) (Fin r) (Fin n) (Fin c) (Fin bigc) = Fin d
     \<and> \<bar>d - ssi * fswpd * waf * r * n * c / bigc\<bar>
         \<le> ((1 + 1 / 2 ^ 53) ^ 6 - 1) * \<bar>ssi * fswpd * waf * r * n * c / bigc\<bar>"
proof -
  have e0: "\<bar>ssi - ssi\<bar> \<le> ((1 + 1 / 2 ^ 53) ^ 0 - 1) * \<bar>ssi\<bar>" by simp
  from dmul_relative[OF e0 _ r1] obtain y1 where y1: "dmul (Fin ssi) (Fin fswpd) = Fin y1"
    "\<bar>y1 - ssi * fswpd\<bar> \<le> ((1 + 1 / 2 ^ 53) ^ Suc 0 - 1) * \<bar>ssi * fswpd\<bar>"
    by auto
  from dmul_relative[OF y1(2) _ r2] obtain y2 where y2: "dmul (Fin y1) (Fin waf) = Fin y2"
    "\<bar>y2 - ssi * fswpd * waf\<bar> \<le> ((1 + 1 / 2 ^ 53) ^ Suc (Suc 0) - 1) * \<bar>ssi * fswpd * waf\<bar>"
    by auto
  from dmul_relative[OF y2(2) _ r3] obtain y3 where y3: "dmul (Fin y2) (Fin r) = Fin y3"
    "\<bar>y3 - ssi * fswpd * waf * r\<bar>
       \<le> ((1 + 1 / 2 ^ 53) ^ Suc (Suc (Suc 0)) - 1) * \<bar>ssi * fswpd * waf * r\<bar>"
    by auto
  from dmul_relative[OF y3(2) _ r4] obtain y4 where y4: "dmul (Fin y3) (Fin n) = Fin y4"
    "\<bar>y4 - ssi * fswpd * waf * r * n\<bar>
       \<le> ((1 + 1 / 2 ^ 53) ^ Suc (Suc (Suc (Suc 0))) - 1) * \<bar>ssi * fswpd * waf * r * n\<bar>"
    by auto
  from dmul_relative[OF y4(2) _ r5] obtain y5 where y5: "dmul (Fin y4) (Fin c) = Fin y5"
    "\<bar>y5 - ssi * fswpd * waf * r * n * c\<bar>
       \<le> ((1 + 1 / 2 ^ 53) ^ Suc (Suc (Suc (Suc (Suc 0)))) - 1) * \<bar>ssi * fswpd * waf * r * n * c\<bar>"
    by auto
  from ddiv_relative[OF y5(2) _ r6] obtain y6 where y6: "ddiv (Fin y5) (Fin bigc) = Fin y6"
    "\<bar>y6 - ssi * fswpd * waf * r * n * c / bigc\<bar>
       \<le> ((1 + 1 / 2 ^ 53) ^ Suc (Suc (Suc (Suc (Suc (Suc 0))))) - 1)
           * \<bar>ssi * fswpd * waf * r * n * c / bigc\<bar>"
    by auto
  have six: "Suc (Suc (Suc (Suc (Suc (Suc 0))))) = 6" by simp
  have "DWPD_NEW (Fin ssi) (Fin fswpd) (Fin waf) (Fin r) (Fin n) (Fin c) (Fin bigc) = Fin y6"
    unfolding DWPD_NEW_def y1(1) y2(1) y3(1) y4(1) y5(1) y6(1) ..
  then show ?thesis using y6(2) unfolding six by blast
qed

text \<open>
  Claim C9, as amended. \<open>DWPD\<close> is the product of the \<open>SSI\<close>, the reference \<open>FSWPD\<close>,
  the \<open>WAF\<close> and the three factors \<open>R\<close>, \<open>N\<close>, \<open>c\<close> of the reference aggregate, divided
  by the capacity of the new system, computed from left to right in double precision. When
  no intermediate result leaves the range of the normal doubles, the result is a finite
  number that differs from the exact value of \<open>SSI * FSWPD * WAF * (R * N * c / C_new)\<close>
  by at most the fraction \<open>(1 + 2 ^ -53) ^ 6 - 1\<close> of that value, which is less than
  \<open>2 ^ -50\<close>. With \<open>SSI = 3\<close>, \<open>FSWPD = 0.05\<close>, \<open>WAF = 2.5\<close>, the reference aggregate 1000
  as \<open>1 * 1 * 1000\<close> and the new capacity 4000 the result is the double
  \<open>0.09375 + 2 ^ -56\<close>, printed as \<open>0.09375000000000001\<close>.
\<close>

theorem dwpd_within_rounding_error:
  "((\<forall>p\<in>set [ssi * fswpd, ssi * fswpd * waf, ssi * fswpd * waf * r,
               ssi * fswpd * waf * r * n, ssi * fswpd * waf * r * n * c,
               ssi * fswpd * waf * r * n * c / bigc]. in_normal_range p) \<longrightarrow>
      (\<exists>d. DWPD_NEW (Fin ssi) (Fin fswpd) (Fin waf) (Fin r) (Fin n) (Fin c) (Fin bigc) = Fin d
         \<and> \<bar>d - ssi * fswpd * waf * (r * n * c / bigc)\<bar>
             \<le> ((1 + 1 / 2 ^ 53) ^ 6 - 1) * \<bar>ssi * fswpd * waf * (r * n * c / bigc)\<bar>
         \<and> \<bar>d - ssi * fswpd * waf * (r * n * c / bigc)\<bar>
             \<le> \<bar>ssi * fswpd * waf * (r * n * c / bigc)\<bar> / 2 ^ 50))
   \<and> DWPD_NEW (Fin 3) (round64 0.05) (Fin 2.5) (Fin 1) (Fin 1) (Fin 1000) (Fin 4000)
        = Fin (0.09375 + 1 / 2 ^ 56)"
proof (intro conjI impI)
  assume h: "\<forall>p\<in>set [ssi * fswpd, ssi * fswpd * waf, ssi * fswpd * waf * r,
               ssi * fswpd * waf * r * n, ssi * fswpd * waf * r * n * c,
               ssi * fswpd * waf * r * n * c / bigc]. in_normal_range p"
  define x where "x = ssi * fswpd * waf * (r * n * c / bigc)"
  have x: "ssi * fswpd * waf * r * n * c / bigc = x" by (simp add: x_def)
  from h have "in_normal_range (ssi * fswpd)" "in_normal_range (ssi * fswpd * waf)"
      "in_normal_range (ssi * fswpd * waf * r)" "in_normal_range (ssi * fswpd * waf * r * n)"
      "in_normal_range (ssi * fswpd * waf * r * n * c)"
      "in_normal_range (ssi * fswpd * waf * r * n * c / bigc)"
    by simp_all
  from dwpd_relative_error[OF this] obtain d where
    d: "DWPD_NEW (Fin ssi) (Fin fswpd) (Fin waf) (Fin r) (Fin n) (Fin c) (Fin bigc) = Fin d"
      "\<bar>d - x\<bar> \<le> ((1 + 1 / 2 ^ 53) ^ 6 - 1) * \<bar>x\<bar>"
    unfolding x by blast
  have "((1 + 1 / 2 ^ 53) ^ 6 - 1 :: real) \<le> 1 / 2 ^ 50" by (simp add: power_divide)
  then have "((1 + 1 / 2 ^ 53) ^ 6 - 1) * \<bar>x\<bar> \<le> (1 / 2 ^ 50) * \<bar>x\<bar>"
    by (intro mult_right_mono) simp_all
  then have "\<bar>d - x\<bar> \<le> \<bar>x\<bar> / 2 ^ 50" using d(2) by simp
  then show "\<exists>d. DWPD_NEW (Fin ssi) (Fin fswpd) (Fin waf) (Fin r) (Fin n) (Fin c) (Fin bigc) = Fin d
         \<and> \<bar>d - ssi * fswpd * waf * (r * n * c / bigc)\<bar>
             \<le> ((1 + 1 / 2 ^ 53) ^ 6 - 1) * \<bar>ssi * fswpd * waf * (r * n * c / bigc)\<bar>
         \<and> \<bar>d - ssi * fswpd * waf * (r * n * c / bigc)\<bar>
             \<le> \<bar>ssi * fswpd * waf * (r * n * c / bigc)\<bar> / 2 ^ 50"
    using d unfolding x_def by blast
next
  show "DWPD_NEW (Fin 3) (round64 0.05) (Fin 2.5) (Fin 1) (Fin 1) (Fin 1000) (Fin 4000)
        = Fin (0.09375 + 1 / 2 ^ 56)"
    by (rule dwpd_scenario)
qed

theorem dwpd_within_rounding_error_witness:
  "in_normal_range (3 * (3602879701896397 / 72057594037927936))
   \<and> in_normal_range (3 * (3602879701896397 / 72057594037927936) * 2.5)
   \<and> in_normal_range (3 * (3602879701896397 / 72057594037927936) * 2.5 * 1)
   \<and> in_normal_range (3 * (3602879701896397 / 72057594037927936) * 2.5 * 1 * 1)
   \<and> in_normal_range (3 * (3602879701896397 / 72057594037927936) * 2.5 * 1 * 1 * 1000)
   \<and> in_normal_range (3 * (3602879701896397 / 72057594037927936) * 2.5 * 1 * 1 * 1000 / 4000)
   \<and> round64 0.05 = Fin (3602879701896397 / 72057594037927936)
   \<and> (\<exists>d. DWPD_NEW (Fin 3) (Fin (3602879701896397 / 72057594037927936)) (Fin 2.5)
              (Fin 1) (Fin 1) (Fin 1000) (Fin 4000) = Fin d
         \<and> \<bar>d - 3 * (3602879701896397 / 72057594037927936) * 2.5 * (1 * 1 * 1000 / 4000)\<bar>
             \<le> \<bar>3 * (3602879701896397 / 72057594037927936) * 2.5 * (1 * 1 * 1000 / 4000)\<bar> / 2 ^ 50)
   \<and> DWPD_NEW (Fin 3) (round64 0.05) (Fin 2.5) (Fin 1) (Fin 1) (Fin 1000) (Fin 4000)
        = Fin (0.09375 + 1 / 2 ^ 56)
   \<and> \<bar>0.09375 + 1 / 2 ^ 56 - 0.09375 :: real\<bar> \<le> 0.09375 / 2 ^ 50
   \<and> fst (PARAM_BIGC_NEW (Some (Fin 1)) (Some (Fin 40)) (Some (Fin 100)) (Some (Fin 1))
          (Some (Fin 1)) (Fin 3) (Fin 4)) = Fin 4000"
proof -
  have rng: "in_normal_range (3 * (3602879701896397 / 72057594037927936))"
      "in_normal_range (3 * (3602879701896397 / 72057594037927936) * 2.5)"
      "in_normal_range (3 * (3602879701896397 / 72057594037927936) * 2.5 * 1)"
      "in_normal_range (3 * (3602879701896397 / 72057594037927936) * 2.5 * 1 * 1)"
      "in_normal_range (3 * (3602879701896397 / 72057594037927936) * 2.5 * 1 * 1 * 1000)"
      "in_normal_range (3 * (3602879701896397 / 72057594037927936) * 2.5 * 1 * 1 * 1000 / 4000)"
    by (simp_all add: in_normal_range_def pow2_def)
  have all: "\<forall>p\<in>set [3 * (3602879701896397 / 72057594037927936),
        3 * (3602879701896397 / 72057594037927936) * 2.5,
        3 * (3602879701896397 / 72057594037927936) * 2.5 * 1,
        3 * (3602879701896397 / 72057594037927936) * 2.5 * 1 * 1,
        3 * (3602879701896397 / 72057594037927936) * 2.5 * 1 * 1 * 1000,
        3 * (3602879701896397 / 72057594037927936) * 2.5 * 1 * 1 * 1000 / 4000].
      in_normal_range p"
    using rng by simp
  note inst = dwpd_within_rounding_error[of 3 "3602879701896397 / 72057594037927936" "2.5"
      1 1 1000 4000]
  from mp[OF conjunct1[OF inst] all]
  have ex: "\<exists>d. DWPD_NEW (Fin 3) (Fin (3602879701896397 / 72057594037927936)) (Fin 2.5)
              (Fin 1) (Fin 1) (Fin 1000) (Fin 4000) = Fin d
         \<and> \<bar>d - 3 * (3602879701896397 / 72057594037927936) * 2.5 * (1 * 1 * 1000 / 4000)\<bar>
             \<le> \<bar>3 * (3602879701896397 / 72057594037927936) * 2.5 * (1 * 1 * 1000 / 4000)\<bar> / 2 ^ 50"
    by blast
  have tol: "\<bar>0.09375 + 1 / 2 ^ 56 - 0.09375 :: real\<bar> \<le> 0.09375 / 2 ^ 50" by simp
  show ?thesis
    by (intro conjI rng double_0_05 ex conjunct2[OF inst] tol bigc_scenario)
qed

text \<open>
  The claim as stated fails at its own inputs: in double precision the result is
  \<open>0.09375 + 2 ^ -56\<close>, not 0.09375, whether the reference aggregate 1000 is the product
  \<open>1 * 1 * 1000\<close> or \<open>1 * 10 * 100\<close>.
\<close>

theorem dwpd_not_exact_counterexample:
  "round64 0.05 = Fin (3602879701896397 / 72057594037927936)
   \<and> DWPD_NEW (Fin 3) (round64 0.05) (Fin 2.5) (Fin 1) (Fin 1) (Fin 1000) (Fin 4000)
        = Fin (6755399441055745 / 72057594037927936)
   \<and> DWPD_NEW (Fin 3) (round64 0.05) (Fin 2.5) (Fin 1) (Fin 10) (Fin 100) (Fin 4000)
        = Fin (6755399441055745 / 72057594037927936)
   \<and> (6755399441055745 / 72057594037927936 :: real) = 0.09375 + 1 / 2 ^ 56
   \<and> Fin (6755399441055745 / 72057594037927936) \<noteq> Fin 0.09375"
  using double_0_05 dwpd_scenario dwpd_scenario_other_factors by simp

end
